theory Spec2Isabelle
  imports Complex_Main "HOL-Library.Monad_Syntax"
begin

section \<open>Tensors\<close>

text \<open>
  A tensor is its shape together with the value at every multi-index.  Only the values at
  indices inside the shape are meaningful.  The element type is \<open>real\<close>: the development
  is about the algebra of \<open>DyNAThetaLinear.forward\<close>, not about rounding.

  Every tensor operation that raises in the tensor library (a shape or rank mismatch, a
  dimension out of range) returns \<open>None\<close>.
\<close>

record tensor =
  shape :: "nat list"
  elt :: "nat list \<Rightarrow> real"

definition valid_index :: "nat list \<Rightarrow> nat list \<Rightarrow> bool" where
  "valid_index s idx \<longleftrightarrow> list_all2 (<) idx s"

definition tensor_eq :: "tensor \<Rightarrow> tensor \<Rightarrow> bool" where
  "tensor_eq a b \<longleftrightarrow>
     shape a = shape b \<and> (\<forall>idx. valid_index (shape a) idx \<longrightarrow> elt a idx = elt b idx)"

definition numel :: "tensor \<Rightarrow> nat" where
  "numel t = prod_list (shape t)"

text \<open>A dimension argument may be negative and then counts from the end; a tensor of
  rank 0 accepts the dimensions \<open>-1\<close> and \<open>0\<close>.\<close>

definition wrap_dim :: "nat \<Rightarrow> int \<Rightarrow> nat option" where
  "wrap_dim n d =
     (let m = int (max n 1)
      in if - m \<le> d \<and> d < m then Some (nat (if d < 0 then d + m else d)) else None)"

subsection \<open>permute, unsqueeze, squeeze, sum\<close>

fun index_of :: "nat \<Rightarrow> nat list \<Rightarrow> nat" where
  "index_of j [] = 0"
| "index_of j (d # ds) = (if d = j then 0 else Suc (index_of j ds))"

definition permute :: "tensor \<Rightarrow> int list \<Rightarrow> tensor option" where
  "permute t dims =
     (let n = length (shape t)
      in if length dims \<noteq> n then None
         else do {
           ds \<leftarrow> those (map (wrap_dim n) dims);
           if distinct ds
           then Some \<lparr>shape = map (\<lambda>d. shape t ! d) ds,
                      elt = (\<lambda>idx. elt t (map (\<lambda>j. idx ! index_of j ds) [0..<n]))\<rparr>
           else None
         })"

definition unsqueeze :: "tensor \<Rightarrow> int \<Rightarrow> tensor option" where
  "unsqueeze t d = do {
     k \<leftarrow> wrap_dim (length (shape t) + 1) d;
     Some \<lparr>shape = take k (shape t) @ [1] @ drop k (shape t),
           elt = (\<lambda>idx. elt t (take k idx @ drop (Suc k) idx))\<rparr>
   }"

definition squeeze :: "tensor \<Rightarrow> int \<Rightarrow> tensor option" where
  "squeeze t d = do {
     k \<leftarrow> wrap_dim (length (shape t)) d;
     Some (if k < length (shape t) \<and> shape t ! k = 1
           then \<lparr>shape = take k (shape t) @ drop (Suc k) (shape t),
                 elt = (\<lambda>idx. elt t (take k idx @ [0] @ drop k idx))\<rparr>
           else t)
   }"

definition sum_dim :: "tensor \<Rightarrow> int \<Rightarrow> tensor option" where
  "sum_dim t d = do {
     k \<leftarrow> wrap_dim (length (shape t)) d;
     Some (if k < length (shape t)
           then \<lparr>shape = take k (shape t) @ drop (Suc k) (shape t),
                 elt = (\<lambda>idx. \<Sum>j<shape t ! k. elt t (take k idx @ [j] @ drop k idx))\<rparr>
           else t)
   }"

subsection \<open>Broadcasting binary operations\<close>

text \<open>Shapes are aligned at their last axis; two sizes are compatible when they are equal
  or one of them is 1.\<close>

fun broadcast_rev :: "nat list \<Rightarrow> nat list \<Rightarrow> nat list option" where
  "broadcast_rev [] ys = Some ys"
| "broadcast_rev (x # xs) [] = Some (x # xs)"
| "broadcast_rev (x # xs) (y # ys) =
     (if x = y \<or> y = 1 then map_option ((#) x) (broadcast_rev xs ys)
      else if x = 1 then map_option ((#) y) (broadcast_rev xs ys)
      else None)"

definition broadcast_shapes :: "nat list \<Rightarrow> nat list \<Rightarrow> nat list option" where
  "broadcast_shapes a b = map_option rev (broadcast_rev (rev a) (rev b))"

definition bdim :: "nat \<Rightarrow> nat \<Rightarrow> nat" where
  "bdim d i = (if d = 1 then 0 else i)"

definition bindex :: "nat list \<Rightarrow> nat list \<Rightarrow> nat list" where
  "bindex s idx = map2 bdim s (drop (length idx - length s) idx)"

definition binop :: "(real \<Rightarrow> real \<Rightarrow> real) \<Rightarrow> tensor \<Rightarrow> tensor \<Rightarrow> tensor option" where
  "binop f a b = do {
     s \<leftarrow> broadcast_shapes (shape a) (shape b);
     Some \<lparr>shape = s,
           elt = (\<lambda>idx. f (elt a (bindex (shape a) idx)) (elt b (bindex (shape b) idx)))\<rparr>
   }"

definition tmul :: "tensor \<Rightarrow> tensor \<Rightarrow> tensor option" where
  "tmul = binop (*)"

definition tadd :: "tensor \<Rightarrow> tensor \<Rightarrow> tensor option" where
  "tadd = binop (+)"

subsection \<open>reshape\<close>

text \<open>Elements are numbered in row-major order.  At most one target size may be \<open>-1\<close>;
  it is inferred from the number of elements, which fails when the other sizes multiply
  to 0.\<close>

fun ravel :: "nat list \<Rightarrow> nat list \<Rightarrow> nat" where
  "ravel (d # ds) (i # is) = i * prod_list ds + ravel ds is"
| "ravel _ _ = 0"

fun unravel :: "nat list \<Rightarrow> nat \<Rightarrow> nat list" where
  "unravel [] k = []"
| "unravel (d # ds) k = (k div prod_list ds) # unravel ds (k mod prod_list ds)"

definition infer_size :: "int list \<Rightarrow> nat \<Rightarrow> nat list option" where
  "infer_size tgt n =
     (if (\<exists>d\<in>set tgt. d < -1) \<or> 1 < length (filter (\<lambda>d. d = -1) tgt) then None
      else let newsize = nat (prod_list (filter (\<lambda>d. d \<noteq> -1) tgt))
           in if -1 \<in> set tgt
              then (if 0 < newsize \<and> n mod newsize = 0
                    then Some (map (\<lambda>d. if d = -1 then n div newsize else nat d) tgt)
                    else None)
              else (if n = newsize then Some (map nat tgt) else None))"

definition reshape :: "tensor \<Rightarrow> int list \<Rightarrow> tensor option" where
  "reshape t tgt = do {
     s \<leftarrow> infer_size tgt (numel t);
     Some \<lparr>shape = s, elt = (\<lambda>idx. elt t (unravel (shape t) (ravel s idx)))\<rparr>
   }"

subsection \<open>The two einsum equations of the layer\<close>

text \<open>In an einsum a labelled axis may have size 1 in one operand and is then broadcast
  against the other operand's size.\<close>

definition bsize :: "nat \<Rightarrow> nat \<Rightarrow> nat option" where
  "bsize a b = (if a = b \<or> b = 1 then Some a else if a = 1 then Some b else None)"

text \<open>\<open>"...ij,ijk -> ...ik"\<close>\<close>

definition einsum_ij_ijk :: "tensor \<Rightarrow> tensor \<Rightarrow> tensor option" where
  "einsum_ij_ijk a b =
     (let r = length (shape a)
      in if r < 2 \<or> length (shape b) \<noteq> 3 then None
         else do {
           i \<leftarrow> bsize (shape a ! (r - 2)) (shape b ! 0);
           j \<leftarrow> bsize (shape a ! (r - 1)) (shape b ! 1);
           Some \<lparr>shape = take (r - 2) (shape a) @ [i, shape b ! 2],
                 elt = (\<lambda>idx. \<Sum>jj<j.
                    elt a (take (r - 2) idx @
                           [bdim (shape a ! (r - 2)) (idx ! (r - 2)), bdim (shape a ! (r - 1)) jj])
                    * elt b [bdim (shape b ! 0) (idx ! (r - 2)), bdim (shape b ! 1) jj,
                             idx ! (r - 1)])\<rparr>
         })"

text \<open>\<open>"...ij,ij -> ...ij"\<close>\<close>

definition einsum_ij_ij :: "tensor \<Rightarrow> tensor \<Rightarrow> tensor option" where
  "einsum_ij_ij a b =
     (let r = length (shape a)
      in if r < 2 \<or> length (shape b) \<noteq> 2 then None
         else do {
           i \<leftarrow> bsize (shape a ! (r - 2)) (shape b ! 0);
           j \<leftarrow> bsize (shape a ! (r - 1)) (shape b ! 1);
           Some \<lparr>shape = take (r - 2) (shape a) @ [i, j],
                 elt = (\<lambda>idx.
                    elt a (take (r - 2) idx @
                           [bdim (shape a ! (r - 2)) (idx ! (r - 2)),
                            bdim (shape a ! (r - 1)) (idx ! (r - 1))])
                    * elt b [bdim (shape b ! 0) (idx ! (r - 2)),
                             bdim (shape b ! 1) (idx ! (r - 1))])\<rparr>
         })"

subsection \<open>The affine map and the normalisation modules\<close>

text \<open>\<open>nn.Linear.forward\<close>: \<open>input @ weight.T + bias\<close>, with \<open>weight\<close> of shape
  \<open>[out, in]\<close>; the last axis of the input must have the size \<open>in\<close>.\<close>

definition linear :: "tensor \<Rightarrow> tensor \<Rightarrow> tensor option \<Rightarrow> tensor option" where
  "linear inp w b =
     (let r = length (shape inp)
      in if r = 0 \<or> length (shape w) \<noteq> 2 \<or> shape inp ! (r - 1) \<noteq> shape w ! 1
            \<or> (case b of None \<Rightarrow> False | Some bt \<Rightarrow> shape bt \<noteq> [shape w ! 0])
         then None
         else Some \<lparr>shape = take (r - 1) (shape inp) @ [shape w ! 0],
                    elt = (\<lambda>idx. (\<Sum>i<shape w ! 1. elt inp (take (r - 1) idx @ [i])
                                                    * elt w [idx ! (r - 1), i])
                                 + (case b of None \<Rightarrow> 0 | Some bt \<Rightarrow> elt bt [idx ! (r - 1)]))\<rparr>)"

fun all_indices :: "nat list \<Rightarrow> nat list list" where
  "all_indices [] = [[]]"
| "all_indices (d # ds) = concat (map (\<lambda>i. map ((#) i) (all_indices ds)) [0..<d])"

text \<open>\<open>nn.LayerNorm(normalized_shape)\<close> with its learnable weight and bias: mean and
  (biased) variance are taken over the trailing axes \<open>normalized_shape\<close>, which the
  input's shape must end with.\<close>

definition layer_norm :: "nat list \<Rightarrow> tensor \<Rightarrow> tensor \<Rightarrow> real \<Rightarrow> tensor \<Rightarrow> tensor option" where
  "layer_norm ns w b eps t =
     (let s = shape t; r = length s - length ns
      in if length ns \<le> length s \<and> drop r s = ns
         then Some \<lparr>shape = s,
                    elt = (\<lambda>idx.
                      let vals = map (\<lambda>j. elt t (take r idx @ j)) (all_indices ns);
                          mean = sum_list vals / real (length vals);
                          var = sum_list (map (\<lambda>v. (v - mean)\<^sup>2) vals) / real (length vals)
                      in (elt t idx - mean) / sqrt (var + eps) * elt w (drop r idx)
                         + elt b (drop r idx))\<rparr>
         else None)"

datatype norm_module = Identity | LayerNorm "nat list" tensor tensor real

fun norm_call :: "norm_module \<Rightarrow> tensor \<Rightarrow> tensor option" where
  "norm_call Identity t = Some t"
| "norm_call (LayerNorm ns w b eps) t = layer_norm ns w b eps t"

section \<open>The layer\<close>

text \<open>The fields of a \<open>DyNAThetaLinear\<close> object, under the names the class gives them;
  \<open>weight\<close> and \<open>bias\<close> are those of the base class \<open>nn.Linear\<close> (\<open>bias\<close> is absent when
  the layer is built with \<open>bias=False\<close>).\<close>

record layer =
  in_features :: nat
  out_features :: nat
  theta_modes_in :: nat
  theta_modes_out :: nat
  theta_quad_out :: nat
  theta_feautures :: nat
  theta_normalize_env_input :: bool
  theta_normalize_env_output :: bool
  individual_sensetivity :: tensor
  env_sensetivity :: tensor
  env_bias :: tensor
  norm_env_input :: norm_module
  norm_env_output :: norm_module
  perception :: tensor
  perceptual_bias :: tensor
  emission :: tensor
  emission_scale :: tensor
  emission_bias :: tensor
  weight :: tensor
  bias :: "tensor option"

subsection \<open>Construction\<close>

text \<open>The initialisers draw random numbers; the draws are an argument of the model.  The
  three initialisers that divide (\<open>theta_modes_in / in_features\<close>, \<open>1 / theta_modes_in\<close>,
  \<open>3.0 / fan\<close> with \<open>fan = theta_modes_in * theta_quad_out\<close>) raise on a zero divisor.\<close>

record draws =
  d_weight :: "nat list \<Rightarrow> real"
  d_bias :: "nat list \<Rightarrow> real"
  d_individual :: "nat list \<Rightarrow> real"
  d_env_sensetivity :: "nat list \<Rightarrow> real"
  d_env_bias :: "nat list \<Rightarrow> real"
  d_perception :: "nat list \<Rightarrow> real"
  d_perceptual_bias :: "nat list \<Rightarrow> real"
  d_emission :: "nat list \<Rightarrow> real"

definition ones :: "nat list \<Rightarrow> tensor" where
  "ones s = \<lparr>shape = s, elt = (\<lambda>_. 1)\<rparr>"

definition zeros :: "nat list \<Rightarrow> tensor" where
  "zeros s = \<lparr>shape = s, elt = (\<lambda>_. 0)\<rparr>"

definition new_LayerNorm :: "nat list \<Rightarrow> norm_module" where
  "new_LayerNorm ns = LayerNorm ns (ones ns) (zeros ns) (1 / 100000)"

definition init ::
  "nat \<Rightarrow> nat \<Rightarrow> nat \<Rightarrow> nat \<Rightarrow> bool \<Rightarrow> bool \<Rightarrow> bool \<Rightarrow> bool \<Rightarrow> draws \<Rightarrow> layer option" where
  "init n_in n_out modes_in modes_out theta_full_features normalize_env_input
        normalize_env_output with_bias rnd =
     (let quad_out = modes_out * 4;
          feautures = (if theta_full_features then n_out else 1)
      in if n_in = 0 \<or> modes_in = 0 \<or> modes_in * quad_out = 0 then None
         else Some \<lparr>
           in_features = n_in,
           out_features = n_out,
           theta_modes_in = modes_in,
           theta_modes_out = modes_out,
           theta_quad_out = quad_out,
           theta_feautures = feautures,
           theta_normalize_env_input = normalize_env_input,
           theta_normalize_env_output = normalize_env_output,
           individual_sensetivity = \<lparr>shape = [n_out, n_in, 1], elt = d_individual rnd\<rparr>,
           env_sensetivity = \<lparr>shape = [n_in, modes_in], elt = d_env_sensetivity rnd\<rparr>,
           env_bias = \<lparr>shape = [n_in, modes_in], elt = d_env_bias rnd\<rparr>,
           norm_env_input =
             (if normalize_env_input then new_LayerNorm [n_in, modes_in] else Identity),
           norm_env_output =
             (if normalize_env_output then new_LayerNorm [n_out, modes_in] else Identity),
           perception = \<lparr>shape = [n_in, modes_in, 1], elt = d_perception rnd\<rparr>,
           perceptual_bias = \<lparr>shape = [n_in], elt = d_perceptual_bias rnd\<rparr>,
           emission = \<lparr>shape = [feautures, modes_in, quad_out], elt = d_emission rnd\<rparr>,
           emission_scale = ones [n_out, quad_out],
           emission_bias = zeros [n_out, quad_out],
           weight = \<lparr>shape = [n_out, n_in], elt = d_weight rnd\<rparr>,
           bias = (if with_bias then Some \<lparr>shape = [n_out], elt = d_bias rnd\<rparr> else None)\<rparr>)"

text \<open>What construction establishes and training keeps: the sizes and the shapes of the
  parameters (an optimizer changes values only).\<close>

fun norm_ok :: "bool \<Rightarrow> norm_module \<Rightarrow> nat list \<Rightarrow> bool" where
  "norm_ok False Identity ns = True"
| "norm_ok True (LayerNorm ns' w b eps) ns = (ns' = ns \<and> shape w = ns \<and> shape b = ns \<and> 0 < eps)"
| "norm_ok _ _ _ = False"

definition layer_ok :: "layer \<Rightarrow> bool" where
  "layer_ok self \<longleftrightarrow>
     0 < in_features self \<and> 0 < theta_modes_in self \<and> 0 < theta_modes_out self
     \<and> theta_quad_out self = theta_modes_out self * 4
     \<and> (theta_feautures self = out_features self \<or> theta_feautures self = 1)
     \<and> shape (individual_sensetivity self) = [out_features self, in_features self, 1]
     \<and> shape (env_sensetivity self) = [in_features self, theta_modes_in self]
     \<and> shape (env_bias self) = [in_features self, theta_modes_in self]
     \<and> norm_ok (theta_normalize_env_input self) (norm_env_input self)
           [in_features self, theta_modes_in self]
     \<and> norm_ok (theta_normalize_env_output self) (norm_env_output self)
           [out_features self, theta_modes_in self]
     \<and> shape (perception self) = [in_features self, theta_modes_in self, 1]
     \<and> shape (perceptual_bias self) = [in_features self]
     \<and> shape (emission self)
         = [theta_feautures self, theta_modes_in self, theta_quad_out self]
     \<and> shape (emission_scale self) = [out_features self, theta_quad_out self]
     \<and> shape (emission_bias self) = [out_features self, theta_quad_out self]
     \<and> shape (weight self) = [out_features self, in_features self]
     \<and> (case bias self of None \<Rightarrow> True | Some b \<Rightarrow> shape b = [out_features self])"

subsection \<open>forward\<close>

text \<open>\<open>len(components.shape[:-2])\<close>: a slice never raises, it is empty below rank 2.\<close>

definition batch_rank :: "tensor \<Rightarrow> nat" where
  "batch_rank t = length (take (length (shape t) - 2) (shape t))"

text \<open>Lines 159--163.\<close>

definition components_per_input :: "tensor \<Rightarrow> tensor option" where
  "components_per_input components = do {
     cpi \<leftarrow> permute components (map int [0..<batch_rank components] @ [-1, -2]);
     unsqueeze cpi (-3)
   }"

text \<open>Lines 168--176: the local variable \<open>individual_sensetivity\<close>.\<close>

definition individual_sensetivity_weighted :: "layer \<Rightarrow> tensor \<Rightarrow> tensor option" where
  "individual_sensetivity_weighted self components = do {
     cpi \<leftarrow> components_per_input components;
     r \<leftarrow> reshape (individual_sensetivity self)
            (replicate (batch_rank components) 1
             @ map int (shape (individual_sensetivity self)));
     tmul r cpi
   }"

text \<open>Line 185.\<close>

definition cumulative_env_inputs :: "tensor \<Rightarrow> tensor option" where
  "cumulative_env_inputs individual = sum_dim individual (-3)"

text \<open>Lines 186--191.\<close>

definition env_biased :: "layer \<Rightarrow> tensor \<Rightarrow> tensor \<Rightarrow> tensor option" where
  "env_biased self components cumulative = do {
     let extra_dims = replicate (batch_rank components) (1::int);
     es \<leftarrow> reshape (env_sensetivity self) (extra_dims @ map int (shape (env_sensetivity self)));
     env_sensed \<leftarrow> tmul cumulative es;
     eb \<leftarrow> reshape (env_bias self) (extra_dims @ map int (shape (env_bias self)));
     tadd env_sensed eb
   }"

text \<open>Lines 202--205.\<close>

definition perceptual_x :: "layer \<Rightarrow> tensor \<Rightarrow> tensor \<Rightarrow> tensor option" where
  "perceptual_x self x env_normalized = do {
     x1 \<leftarrow> unsqueeze x (-1);
     p \<leftarrow> tmul x1 env_normalized;
     p \<leftarrow> einsum_ij_ijk p (perception self);
     p \<leftarrow> squeeze p (-1);
     tadd p (perceptual_bias self)
   }"

text \<open>Line 216.\<close>

definition cumulative_env_outputs :: "tensor \<Rightarrow> tensor option" where
  "cumulative_env_outputs individual = sum_dim individual (-2)"

text \<open>Line 217: the product that the output-side normalisation receives.\<close>

definition gated_env :: "tensor \<Rightarrow> tensor \<Rightarrow> tensor option" where
  "gated_env cumulative transformed_x = do {
     t1 \<leftarrow> unsqueeze transformed_x (-1);
     tmul cumulative t1
   }"

text \<open>Lines 219--249.\<close>

definition param_quads :: "layer \<Rightarrow> tensor \<Rightarrow> tensor option" where
  "param_quads self modulated = do {
     emission_raw \<leftarrow> einsum_ij_ijk modulated (emission self);
     emission_scaled \<leftarrow> einsum_ij_ij emission_raw (emission_scale self);
     eb \<leftarrow> reshape (emission_bias self)
             (replicate (length (take (length (shape emission_scaled) - 2)
                                      (shape emission_scaled))) 1
              @ map int (shape (emission_bias self)));
     emission_biased \<leftarrow> tadd emission_scaled eb;
     pq \<leftarrow> reshape emission_biased
             (map int (butlast (shape emission_biased))
              @ [int (theta_modes_out self), -1]);
     permute pq (map int [0..<length (take (length (shape pq) - 3) (shape pq))]
                 @ [-2, -1, -3])
   }"

text \<open>The body of \<open>forward\<close>, keeping every local variable that a later statement or
  the result uses.\<close>

record locals =
  l_individual :: tensor
  l_cumulative_env_inputs :: tensor
  l_env_biased :: tensor
  l_env_normalized :: tensor
  l_perceptual_x :: tensor
  l_transformed_x :: tensor
  l_cumulative_env_outputs :: tensor
  l_gated_env :: tensor
  l_modulated_env :: tensor
  l_param_quads :: tensor

definition forward_locals :: "layer \<Rightarrow> tensor \<Rightarrow> tensor \<Rightarrow> locals option" where
  "forward_locals self x components = do {
     individual \<leftarrow> individual_sensetivity_weighted self components;
     cum_in \<leftarrow> cumulative_env_inputs individual;
     biased \<leftarrow> env_biased self components cum_in;
     env_normalized \<leftarrow> norm_call (norm_env_input self) biased;
     px \<leftarrow> perceptual_x self x env_normalized;
     transformed_x \<leftarrow> linear px (weight self) (bias self);
     cum_out \<leftarrow> cumulative_env_outputs individual;
     gated \<leftarrow> gated_env cum_out transformed_x;
     modulated \<leftarrow> norm_call (norm_env_output self) gated;
     pq \<leftarrow> param_quads self modulated;
     Some \<lparr>l_individual = individual, l_cumulative_env_inputs = cum_in,
           l_env_biased = biased, l_env_normalized = env_normalized,
           l_perceptual_x = px, l_transformed_x = transformed_x,
           l_cumulative_env_outputs = cum_out, l_gated_env = gated,
           l_modulated_env = modulated, l_param_quads = pq\<rparr>
   }"

definition forward :: "layer \<Rightarrow> tensor \<Rightarrow> tensor \<Rightarrow> (tensor \<times> tensor) option" where
  "forward self x components =
     map_option (\<lambda>l. (l_transformed_x l, l_param_quads l)) (forward_locals self x components)"

section \<open>Reference pipelines and example inputs\<close>

text \<open>The pipeline of \<open>forward\<close> with the two normalisation steps removed: the biased
  environment is used as it is, and so is the gated output-side environment.\<close>

definition forward_without_norm :: "layer \<Rightarrow> tensor \<Rightarrow> tensor \<Rightarrow> (tensor \<times> tensor) option" where
  "forward_without_norm self x components = do {
     individual \<leftarrow> individual_sensetivity_weighted self components;
     cum_in \<leftarrow> cumulative_env_inputs individual;
     biased \<leftarrow> env_biased self components cum_in;
     px \<leftarrow> perceptual_x self x biased;
     transformed_x \<leftarrow> linear px (weight self) (bias self);
     cum_out \<leftarrow> cumulative_env_outputs individual;
     gated \<leftarrow> gated_env cum_out transformed_x;
     pq \<leftarrow> param_quads self gated;
     Some (transformed_x, pq)
   }"

subsection \<open>The call as a computation on the layer object\<close>

text \<open>
  A statement of a method body is an action on the layer object: it yields a value or
  raises, and it leaves an object behind.  \<open>getattr\<close> is the read \<open>self.f\<close>, \<open>setattr\<close> the
  assignment \<open>self.f = v\<close> (and the in-place operations on a parameter, which write its
  storage), \<open>tensor_op\<close> a call of an out-of-place operation of the tensor library, which
  builds a new tensor or raises.  After a raise the object is what the statements before
  it left.
\<close>

type_synonym 'a action = "layer \<Rightarrow> 'a option \<times> layer"

definition ret :: "'a \<Rightarrow> 'a action" where
  "ret v = (\<lambda>s. (Some v, s))"

definition bnd :: "'a action \<Rightarrow> ('a \<Rightarrow> 'b action) \<Rightarrow> 'b action" where
  "bnd m f = (\<lambda>s. case m s of (None, s') \<Rightarrow> (None, s') | (Some v, s') \<Rightarrow> f v s')"

definition getattr :: "(layer \<Rightarrow> 'a) \<Rightarrow> 'a action" where
  "getattr f = (\<lambda>s. (Some (f s), s))"

definition setattr :: "(('a \<Rightarrow> 'a) \<Rightarrow> layer \<Rightarrow> layer) \<Rightarrow> 'a \<Rightarrow> unit action" where
  "setattr upd v = (\<lambda>s. (Some (), upd (\<lambda>_. v) s))"

definition tensor_op :: "'a option \<Rightarrow> 'a action" where
  "tensor_op r = (\<lambda>s. (r, s))"

text \<open>\<open>self.norm_env_input(t)\<close> and \<open>self.norm_env_output(t)\<close>: \<open>nn.Identity.forward\<close> returns
  its argument, \<open>nn.LayerNorm.forward\<close> is \<open>F.layer_norm\<close> of the argument and the module's
  \<open>normalized_shape\<close>, \<open>weight\<close>, \<open>bias\<close> and \<open>eps\<close>; neither module has a buffer.\<close>

definition call_norm :: "(layer \<Rightarrow> norm_module) \<Rightarrow> tensor \<Rightarrow> tensor action" where
  "call_norm f t = bnd (getattr f) (\<lambda>n. tensor_op (norm_call n t))"

text \<open>\<open>super().forward(t)\<close>: \<open>F.linear(t, self.weight, self.bias)\<close>.\<close>

definition super_forward :: "tensor \<Rightarrow> tensor action" where
  "super_forward t =
     bnd (getattr weight) (\<lambda>w.
     bnd (getattr bias) (\<lambda>b.
     tensor_op (linear t w b)))"

text \<open>The body of \<open>forward\<close>, lines 159--251, statement by statement.\<close>

definition forward_body :: "tensor \<Rightarrow> tensor \<Rightarrow> (tensor \<times> tensor) action" where
  "forward_body x components =
     (let extra_dims = replicate (batch_rank components) (1::int) in
     bnd (tensor_op (permute components (map int [0..<batch_rank components] @ [-1, -2])))
       (\<lambda>components_per_input.
     bnd (tensor_op (unsqueeze components_per_input (-3))) (\<lambda>components_per_input.
     bnd (getattr individual_sensetivity) (\<lambda>p_individual.
     bnd (tensor_op (reshape p_individual
            (replicate (batch_rank components) 1 @ map int (shape p_individual))))
       (\<lambda>p_individual.
     bnd (tensor_op (tmul p_individual components_per_input)) (\<lambda>individual.
     bnd (tensor_op (sum_dim individual (-3))) (\<lambda>cumulative_env_inputs.
     bnd (getattr env_sensetivity) (\<lambda>p_env_sensetivity.
     bnd (tensor_op (reshape p_env_sensetivity
            (extra_dims @ map int (shape p_env_sensetivity)))) (\<lambda>p_env_sensetivity.
     bnd (tensor_op (tmul cumulative_env_inputs p_env_sensetivity)) (\<lambda>env_sensed.
     bnd (getattr env_bias) (\<lambda>p_env_bias.
     bnd (tensor_op (reshape p_env_bias (extra_dims @ map int (shape p_env_bias))))
       (\<lambda>p_env_bias.
     bnd (tensor_op (tadd env_sensed p_env_bias)) (\<lambda>env_biased.
     bnd (call_norm norm_env_input env_biased) (\<lambda>env_normalized.
     bnd (tensor_op (unsqueeze x (-1))) (\<lambda>x1.
     bnd (tensor_op (tmul x1 env_normalized)) (\<lambda>px.
     bnd (getattr perception) (\<lambda>p_perception.
     bnd (tensor_op (einsum_ij_ijk px p_perception)) (\<lambda>px.
     bnd (tensor_op (squeeze px (-1))) (\<lambda>px.
     bnd (getattr perceptual_bias) (\<lambda>p_perceptual_bias.
     bnd (tensor_op (tadd px p_perceptual_bias)) (\<lambda>px.
     bnd (super_forward px) (\<lambda>transformed_x.
     bnd (tensor_op (sum_dim individual (-2))) (\<lambda>cumulative_env_outputs.
     bnd (tensor_op (unsqueeze transformed_x (-1))) (\<lambda>t1.
     bnd (tensor_op (tmul cumulative_env_outputs t1)) (\<lambda>modulated_env.
     bnd (call_norm norm_env_output modulated_env) (\<lambda>modulated_env.
     bnd (getattr emission) (\<lambda>p_emission.
     bnd (tensor_op (einsum_ij_ijk modulated_env p_emission)) (\<lambda>emission_raw.
     bnd (getattr emission_scale) (\<lambda>p_emission_scale.
     bnd (tensor_op (einsum_ij_ij emission_raw p_emission_scale)) (\<lambda>emission_scaled.
     bnd (getattr emission_bias) (\<lambda>p_emission_bias.
     bnd (tensor_op (reshape p_emission_bias
            (replicate (length (take (length (shape emission_scaled) - 2)
                                     (shape emission_scaled))) 1
             @ map int (shape p_emission_bias)))) (\<lambda>p_emission_bias.
     bnd (tensor_op (tadd emission_scaled p_emission_bias)) (\<lambda>emission_biased.
     bnd (getattr theta_modes_out) (\<lambda>modes_out.
     bnd (tensor_op (reshape emission_biased
            (map int (butlast (shape emission_biased)) @ [int modes_out, -1])))
       (\<lambda>pq.
     bnd (tensor_op (permute pq
            (map int [0..<length (take (length (shape pq) - 3) (shape pq))]
             @ [-2, -1, -3]))) (\<lambda>pq.
     ret (transformed_x, pq)))))))))))))))))))))))))))))))))))))"

text \<open>A call \<open>layer(x, components)\<close>: what it returns, and the layer object after it.\<close>

definition forward_call ::
  "layer \<Rightarrow> tensor \<Rightarrow> tensor \<Rightarrow> (tensor \<times> tensor) option \<times> layer" where
  "forward_call self x components = forward_body x components self"

text \<open>The same layer with other emission parameters.\<close>

definition with_emission :: "layer \<Rightarrow> tensor \<Rightarrow> tensor \<Rightarrow> tensor \<Rightarrow> layer" where
  "with_emission self e s b = self\<lparr>emission := e, emission_scale := s, emission_bias := b\<rparr>"

text \<open>Example tensors: \<open>iota s\<close> numbers the elements of shape \<open>s\<close> from 1 in row-major
  order, \<open>const s v\<close> holds \<open>v\<close> everywhere.\<close>

definition iota :: "nat list \<Rightarrow> tensor" where
  "iota s = \<lparr>shape = s, elt = (\<lambda>idx. real (ravel s idx) + 1)\<rparr>"

definition const :: "nat list \<Rightarrow> real \<Rightarrow> tensor" where
  "const s v = \<lparr>shape = s, elt = (\<lambda>_. v)\<rparr>"

text \<open>An example layer with \<open>in_features = 2\<close>, \<open>out_features = 3\<close>, \<open>theta_modes_in = 2\<close>,
  \<open>theta_modes_out = 1\<close>, shared emission weights and no normalisation.\<close>

definition example_layer :: layer where
  "example_layer = \<lparr>
     in_features = 2, out_features = 3, theta_modes_in = 2, theta_modes_out = 1,
     theta_quad_out = 4, theta_feautures = 1,
     theta_normalize_env_input = False, theta_normalize_env_output = False,
     individual_sensetivity = iota [3, 2, 1],
     env_sensetivity = const [2, 2] 2,
     env_bias = const [2, 2] 1,
     norm_env_input = Identity,
     norm_env_output = Identity,
     perception = const [2, 2, 1] 1,
     perceptual_bias = const [2] 0,
     emission = iota [1, 2, 4],
     emission_scale = ones [3, 4],
     emission_bias = zeros [3, 4],
     weight = iota [3, 2],
     bias = Some (const [3] 1)\<rparr>"

definition example_x :: tensor where
  "example_x = iota [2]"

definition example_components :: tensor where
  "example_components = iota [2, 2]"

text \<open>The draws from which the constructor builds the example layer.\<close>

definition example_draws :: draws where
  "example_draws = \<lparr>
     d_weight = elt (iota [3, 2]),
     d_bias = elt (const [3] 1),
     d_individual = elt (iota [3, 2, 1]),
     d_env_sensetivity = elt (const [2, 2] 2),
     d_env_bias = elt (const [2, 2] 1),
     d_perception = elt (const [2, 2, 1] 1),
     d_perceptual_bias = elt (const [2] 0),
     d_emission = elt (iota [1, 2, 4])\<rparr>"






section \<open>Properties of the tensor operations\<close>


lemma valid_index_length: "valid_index s idx \<Longrightarrow> length idx = length s"
  by (simp add: valid_index_def list_all2_lengthD)

lemma valid_index_Nil [simp]: "valid_index [] idx \<longleftrightarrow> idx = []"
  by (simp add: valid_index_def)

lemma valid_index_append:
  "length bs = length B \<Longrightarrow>
   valid_index (B @ s) (bs @ idx) \<longleftrightarrow> valid_index B bs \<and> valid_index s idx"
  by (simp add: valid_index_def list_all2_append)

lemma valid_index_Cons [simp]:
  "valid_index (d # s) (i # idx) \<longleftrightarrow> i < d \<and> valid_index s idx"
  by (simp add: valid_index_def)

lemma bdim_lt [simp]: "i < d \<Longrightarrow> bdim d i = i"
  by (auto simp: bdim_def)

lemma bdim_one [simp]: "bdim (Suc 0) i = 0"
  by (simp add: bdim_def)

lemma wrap_dim_neg:
  "0 < k \<Longrightarrow> k \<le> n \<Longrightarrow> wrap_dim n (- int k) = Some (n - k)"
  by (auto simp: wrap_dim_def Let_def max_def nat_diff_distrib)

lemma wrap_dim_m1 [simp]: "wrap_dim (Suc n) (-1) = Some n"
  using wrap_dim_neg[of 1 "Suc n"] by simp

lemma wrap_dim_m2 [simp]: "wrap_dim (Suc (Suc n)) (-2) = Some n"
  using wrap_dim_neg[of 2 "Suc (Suc n)"] by simp

lemma wrap_dim_m3 [simp]: "wrap_dim (Suc (Suc (Suc n))) (-3) = Some n"
  using wrap_dim_neg[of 3 "Suc (Suc (Suc n))"] by simp

lemma index_of_upt_append:
  "m \<le> n \<Longrightarrow>
   index_of j ([m..<n] @ p) = (if m \<le> j \<and> j < n then j - m else (n - m) + index_of j p)"
proof (induction n arbitrary: p)
  case 0
  then show ?case by simp
next
  case (Suc n)
  show ?case
  proof (cases "m = Suc n")
    case True
    then show ?thesis by simp
  next
    case False
    with Suc.prems have le: "m \<le> n" by simp
    have "index_of j ([m..<Suc n] @ p) = index_of j ([m..<n] @ (n # p))"
      using le by simp
    also have "\<dots> = (if m \<le> j \<and> j < n then j - m else (n - m) + index_of j (n # p))"
      by (rule Suc.IH[OF le])
    finally show ?thesis using le by auto
  qed
qed

lemma those_append:
  "those (xs @ ys) = (case those xs of None \<Rightarrow> None
                      | Some a \<Rightarrow> map_option ((@) a) (those ys))"
proof (induction xs)
  case Nil
  show ?case by (cases "those ys") simp_all
next
  case (Cons x xs)
  show ?case using Cons by (cases x; cases "those xs"; cases "those ys") simp_all
qed

lemma those_map_wrap_upt:
  "n \<le> r \<Longrightarrow> those (map (wrap_dim r) (map int [0..<n])) = Some [0..<n]"
proof (induction n)
  case 0
  then show ?case by simp
next
  case (Suc n)
  then show ?case by (simp add: those_append wrap_dim_def Let_def max_def)
qed

lemma map_nth_append_upt:
  "length bs = n \<Longrightarrow> map (\<lambda>j. (bs @ r) ! j) [0..<n] = bs"
  by (simp add: nth_append list_eq_iff_nth_eq)

lemma batch_rank_2 [simp]: "shape t = B @ [a, b] \<Longrightarrow> batch_rank t = length B"
  by (simp add: batch_rank_def)

lemma permute_Some:
  "length dims = length (shape t) \<Longrightarrow>
   those (map (wrap_dim (length (shape t))) dims) = Some ds \<Longrightarrow> distinct ds \<Longrightarrow>
   permute t dims = Some \<lparr>shape = map (\<lambda>d. shape t ! d) ds,
                            elt = (\<lambda>idx. elt t (map (\<lambda>j. idx ! index_of j ds) [0..<length (shape t)]))\<rparr>"
  by (simp add: permute_def)

lemma those_prefix_upt:
  "n \<le> r \<Longrightarrow> those (map (wrap_dim r) (map int [0..<n]) @ map Some p) = Some ([0..<n] @ p)"
proof -
  have "those (map Some p) = Some p" by (induction p) simp_all
  then show "n \<le> r \<Longrightarrow> ?thesis"
    using those_map_wrap_upt[of n r] by (simp add: those_append del: map_map)
qed

lemma map_index_prefix:
  assumes "length bs = n"
  shows "map (\<lambda>j. (bs @ r) ! index_of j ([0..<n] @ p)) [0..<n] = bs"
proof -
  have "map (\<lambda>j. (bs @ r) ! index_of j ([0..<n] @ p)) [0..<n] = map (\<lambda>j. (bs @ r) ! j) [0..<n]"
    by (rule map_cong) (simp_all add: index_of_upt_append)
  also have "\<dots> = bs" by (rule map_nth_append_upt) (rule assms)
  finally show ?thesis .
qed

lemma permute_swap_spec:
  assumes "shape t = B @ [a, b]"
  shows "\<exists>t'. permute t (map int [0..<length B] @ [-1, -2]) = Some t'
          \<and> shape t' = B @ [b, a]
          \<and> (\<forall>bs x y. length bs = length B \<longrightarrow> elt t' (bs @ [x, y]) = elt t (bs @ [y, x]))"
proof -
  let ?n = "length B"
  let ?ds = "[0..<?n] @ [Suc ?n, ?n]"
  have len: "length (shape t) = Suc (Suc ?n)" using assms by simp
  have th: "those (map (wrap_dim (length (shape t))) (map int [0..<?n] @ [-1, -2])) = Some ?ds"
    using those_prefix_upt[of ?n "Suc (Suc ?n)" "[Suc ?n, ?n]"] by (simp add: len del: map_map)
  have p: "permute t (map int [0..<?n] @ [-1, -2]) =
     Some \<lparr>shape = map (\<lambda>d. shape t ! d) ?ds,
           elt = (\<lambda>idx. elt t (map (\<lambda>j. idx ! index_of j ?ds) [0..<length (shape t)]))\<rparr>"
    by (rule permute_Some[OF _ th]) (simp_all add: len)
  have m0: "map (\<lambda>d. (B @ [a, b]) ! d) [0..<?n] = B"
    by (rule map_nth_append_upt) simp
  have sh: "map (\<lambda>d. shape t ! d) ?ds = B @ [b, a]"
    using m0 by (simp add: assms nth_append)
  have el: "map (\<lambda>j. (bs @ [x, y]) ! index_of j ?ds) [0..<length (shape t)] = bs @ [y, x]"
    if "length bs = ?n" for bs x y
    using map_index_prefix[OF that, of "[x, y]" "[Suc ?n, ?n]"] that
    by (simp add: len index_of_upt_append nth_append)
  let ?t' = "\<lparr>shape = map (\<lambda>d. shape t ! d) ?ds,
           elt = (\<lambda>idx. elt t (map (\<lambda>j. idx ! index_of j ?ds) [0..<length (shape t)]))\<rparr>"
  have s': "shape ?t' = B @ [b, a]" by (simp only: tensor.select_convs sh)
  have e': "elt ?t' (bs @ [x, y]) = elt t (bs @ [y, x])" if "length bs = length B" for bs x y
    by (simp only: tensor.select_convs el[OF that])
  show ?thesis
    by (intro exI[of _ ?t'] conjI allI impI) (rule p, rule s', erule e')
qed

lemma permute_rot_spec:
  assumes "shape t = B @ [a, b, c]"
  shows "\<exists>t'. permute t (map int [0..<length B] @ [-2, -1, -3]) = Some t'
          \<and> shape t' = B @ [b, c, a]
          \<and> (\<forall>bs x y z. length bs = length B \<longrightarrow>
                elt t' (bs @ [x, y, z]) = elt t (bs @ [z, x, y]))"
proof -
  let ?n = "length B"
  let ?ds = "[0..<?n] @ [Suc ?n, Suc (Suc ?n), ?n]"
  have len: "length (shape t) = Suc (Suc (Suc ?n))" using assms by simp
  have th: "those (map (wrap_dim (length (shape t))) (map int [0..<?n] @ [-2, -1, -3])) = Some ?ds"
    using those_prefix_upt[of ?n "Suc (Suc (Suc ?n))" "[Suc ?n, Suc (Suc ?n), ?n]"]
    by (simp add: len del: map_map)
  have p: "permute t (map int [0..<?n] @ [-2, -1, -3]) =
     Some \<lparr>shape = map (\<lambda>d. shape t ! d) ?ds,
           elt = (\<lambda>idx. elt t (map (\<lambda>j. idx ! index_of j ?ds) [0..<length (shape t)]))\<rparr>"
    by (rule permute_Some[OF _ th]) (simp_all add: len)
  have m0: "map (\<lambda>d. (B @ [a, b, c]) ! d) [0..<?n] = B"
    by (rule map_nth_append_upt) simp
  have sh: "map (\<lambda>d. shape t ! d) ?ds = B @ [b, c, a]"
    using m0 by (simp add: assms nth_append)
  have el: "map (\<lambda>j. (bs @ [x, y, z]) ! index_of j ?ds) [0..<length (shape t)] = bs @ [z, x, y]"
    if "length bs = ?n" for bs x y z
    using map_index_prefix[OF that, of "[x, y, z]" "[Suc ?n, Suc (Suc ?n), ?n]"] that
    by (simp add: len index_of_upt_append nth_append)
  let ?t' = "\<lparr>shape = map (\<lambda>d. shape t ! d) ?ds,
           elt = (\<lambda>idx. elt t (map (\<lambda>j. idx ! index_of j ?ds) [0..<length (shape t)]))\<rparr>"
  have s': "shape ?t' = B @ [b, c, a]" by (simp only: tensor.select_convs sh)
  have e': "elt ?t' (bs @ [x, y, z]) = elt t (bs @ [z, x, y])"
    if "length bs = length B" for bs x y z
    by (simp only: tensor.select_convs el[OF that])
  show ?thesis
    by (intro exI[of _ ?t'] conjI allI impI) (rule p, rule s', erule e')
qed

lemma unsqueeze_m3_spec:
  assumes "shape t = B @ [a, b]"
  shows "\<exists>t'. unsqueeze t (-3) = Some t' \<and> shape t' = B @ [1, a, b]
          \<and> (\<forall>bs z x y. length bs = length B \<longrightarrow>
                elt t' (bs @ [z, x, y]) = elt t (bs @ [x, y]))"
  unfolding unsqueeze_def using assms by (simp add: nth_append)

lemma unsqueeze_m1_spec:
  assumes "shape t = B @ [a]"
  shows "\<exists>t'. unsqueeze t (-1) = Some t' \<and> shape t' = B @ [a, 1]
          \<and> (\<forall>bs x z. length bs = length B \<longrightarrow> elt t' (bs @ [x, z]) = elt t (bs @ [x]))"
  unfolding unsqueeze_def using assms by (simp add: nth_append)

lemma sum_dim_m3_spec:
  assumes "shape t = B @ [a, b, c]"
  shows "\<exists>t'. sum_dim t (-3) = Some t' \<and> shape t' = B @ [b, c]
          \<and> (\<forall>bs y z. length bs = length B \<longrightarrow>
                elt t' (bs @ [y, z]) = (\<Sum>x<a. elt t (bs @ [x, y, z])))"
  unfolding sum_dim_def using assms by (simp add: nth_append)

lemma sum_dim_m2_spec:
  assumes "shape t = B @ [a, b, c]"
  shows "\<exists>t'. sum_dim t (-2) = Some t' \<and> shape t' = B @ [a, c]
          \<and> (\<forall>bs x z. length bs = length B \<longrightarrow>
                elt t' (bs @ [x, z]) = (\<Sum>y<b. elt t (bs @ [x, y, z])))"
  unfolding sum_dim_def using assms by (simp add: nth_append)

lemma squeeze_m1_spec:
  assumes "shape t = B @ [a, 1]"
  shows "\<exists>t'. squeeze t (-1) = Some t' \<and> shape t' = B @ [a]
          \<and> (\<forall>bs x. length bs = length B \<longrightarrow> elt t' (bs @ [x]) = elt t (bs @ [x, 0]))"
  unfolding squeeze_def using assms by (simp add: nth_append)


subsection \<open>Broadcast shapes\<close>

lemma broadcast_rev_append:
  "length s1 = length s2 \<Longrightarrow>
   broadcast_rev (s1 @ r1) (s2 @ r2) =
     (case broadcast_rev s1 s2 of None \<Rightarrow> None
      | Some s \<Rightarrow> map_option ((@) s) (broadcast_rev r1 r2))"
proof (induction s1 s2 rule: list_induct2)
  case Nil
  show ?case by (cases "broadcast_rev r1 r2") simp_all
next
  case (Cons x xs y ys)
  show ?case
    by (cases "broadcast_rev xs ys"; cases "broadcast_rev r1 r2") (simp_all add: Cons.IH)
qed

lemma broadcast_shapes_append:
  "length s1 = length s2 \<Longrightarrow>
   broadcast_shapes (B1 @ s1) (B2 @ s2) =
     (case broadcast_shapes s1 s2 of None \<Rightarrow> None
      | Some s \<Rightarrow> map_option (\<lambda>b. b @ s) (broadcast_shapes B1 B2))"
  unfolding broadcast_shapes_def
  by (cases "broadcast_rev (rev s1) (rev s2)"; cases "broadcast_rev (rev B1) (rev B2)")
     (simp_all add: broadcast_rev_append)

lemma broadcast_rev_self: "broadcast_rev xs xs = Some xs"
  by (induction xs) simp_all

lemma broadcast_rev_ones_l: "broadcast_rev (replicate (length xs) (Suc 0)) xs = Some xs"
  by (induction xs) auto

lemma broadcast_rev_ones_r: "broadcast_rev xs (replicate (length xs) (Suc 0)) = Some xs"
  by (induction xs) auto

lemma broadcast_rev_Nil_r: "broadcast_rev xs [] = Some xs"
  by (cases xs) simp_all

lemma broadcast_shapes_self [simp]: "broadcast_shapes B B = Some B"
  by (simp add: broadcast_shapes_def broadcast_rev_self)

lemma broadcast_shapes_ones_l [simp]:
  "n = length B \<Longrightarrow> broadcast_shapes (replicate n (Suc 0)) B = Some B"
  using broadcast_rev_ones_l[of "rev B"] by (simp add: broadcast_shapes_def)

lemma broadcast_shapes_ones_r [simp]:
  "n = length B \<Longrightarrow> broadcast_shapes B (replicate n (Suc 0)) = Some B"
  using broadcast_rev_ones_r[of "rev B"] by (simp add: broadcast_shapes_def)

lemma broadcast_shapes_Nil_r [simp]: "broadcast_shapes B [] = Some B"
  by (simp add: broadcast_shapes_def broadcast_rev_Nil_r)

subsection \<open>Broadcast indices\<close>

lemma bindex_append:
  "length bs = length B \<Longrightarrow> length idx = length s \<Longrightarrow>
   bindex (B @ s) (bs @ idx) = bindex B bs @ bindex s idx"
  by (simp add: bindex_def)

lemma bindex_suffix:
  "length idx = length s \<Longrightarrow> bindex s (bs @ idx) = bindex s idx"
  by (simp add: bindex_def)

lemma bindex_valid: "valid_index s idx \<Longrightarrow> bindex s idx = idx"
proof -
  assume v: "valid_index s idx"
  then have len: "length idx = length s" by (rule valid_index_length)
  have "map2 bdim s idx = idx"
    using v unfolding valid_index_def
    by (induction idx s rule: list_all2_induct) simp_all
  then show ?thesis by (simp add: bindex_def len)
qed

lemma bindex_ones: "length bs = n \<Longrightarrow> bindex (replicate n (Suc 0)) bs = replicate n 0"
  unfolding bindex_def
  by (induction bs arbitrary: n) auto

lemma bindex_Cons [simp]:
  "length idx = length s \<Longrightarrow> bindex (d # s) (i # idx) = bdim d i # bindex s idx"
  by (simp add: bindex_def)

lemma bindex_Nil [simp]: "bindex [] [] = []"
  by (simp add: bindex_def)

subsection \<open>Row-major numbering\<close>

lemma ravel_append:
  "length s1 = length i1 \<Longrightarrow>
   ravel (s1 @ s2) (i1 @ i2) = ravel s1 i1 * prod_list s2 + ravel s2 i2"
  by (induction s1 i1 rule: list_induct2) (simp_all add: algebra_simps)

lemma ravel_lt: "valid_index s idx \<Longrightarrow> ravel s idx < prod_list s"
  unfolding valid_index_def
proof (induction idx s rule: list_all2_induct)
  case Nil
  show ?case by simp
next
  case (Cons i idx d s)
  have "i * prod_list s + ravel s idx < i * prod_list s + prod_list s"
    using Cons.IH by simp
  also have "\<dots> = Suc i * prod_list s" by simp
  also have "\<dots> \<le> d * prod_list s"
    using Cons.hyps(1) by (intro mult_le_mono1) simp
  finally show ?case by simp
qed

lemma unravel_ravel: "valid_index s idx \<Longrightarrow> unravel s (ravel s idx) = idx"
proof (induction s arbitrary: idx)
  case Nil
  then show ?case by simp
next
  case (Cons d s)
  then obtain i js where idx: "idx = i # js" and i: "i < d" and v: "valid_index s js"
    by (cases idx) (auto simp: valid_index_def)
  have lt: "ravel s js < prod_list s" by (rule ravel_lt[OF v])
  show ?case using lt Cons.IH[OF v] by (simp add: idx)
qed

lemma ravel_ones_zeros: "ravel (replicate n (Suc 0) @ s) (replicate n 0 @ idx) = ravel s idx"
  by (induction n) simp_all

lemma prod_list_map_int: "prod_list (map int s) = int (prod_list s)"
  by (induction s) simp_all

lemma filter_nonneg_int: "filter (\<lambda>d. d \<noteq> -1) (map int s) = map int s"
  by (induction s) simp_all

lemma filter_neg_int: "filter (\<lambda>d. d = -1) (map int s) = []"
  by (induction s) simp_all

lemma infer_size_prefix_ones:
  "infer_size (replicate n 1 @ map int s) (prod_list s) = Some (replicate n (Suc 0) @ s)"
proof -
  have a: "filter (\<lambda>d. d \<noteq> -1) (replicate n (1::int)) = replicate n 1"
    by (induction n) simp_all
  have b: "filter (\<lambda>d. d = -1) (replicate n (1::int)) = []"
    by (induction n) simp_all
  have c: "map nat (replicate n (1::int)) = replicate n (Suc 0)" by simp
  have d: "map nat (map int s) = s" by (simp add: comp_def)
  have e: "- 1 \<notin> int ` set s" by auto
  show ?thesis
    unfolding infer_size_def Let_def
    using e by (auto simp: a b c d filter_nonneg_int filter_neg_int prod_list_map_int
      simp del: map_map)
qed

lemma reshape_prefix_spec:
  "\<exists>t'. reshape t (replicate n 1 @ map int (shape t)) = Some t'
     \<and> shape t' = replicate n (Suc 0) @ shape t
     \<and> (\<forall>idx. valid_index (shape t) idx \<longrightarrow> elt t' (replicate n 0 @ idx) = elt t idx)"
  unfolding reshape_def numel_def
  by (simp add: infer_size_prefix_ones ravel_ones_zeros unravel_ravel)

section \<open>The stages of forward on conformant shapes\<close>


lemma binop_Some:
  "broadcast_shapes (shape a) (shape b) = Some s \<Longrightarrow>
   binop f a b = Some \<lparr>shape = s,
       elt = (\<lambda>idx. f (elt a (bindex (shape a) idx)) (elt b (bindex (shape b) idx)))\<rparr>"
  by (simp add: binop_def)

lemma broadcast3:
  "broadcast_shapes [a, b, Suc 0] [Suc 0, b', c] =
     (if b = b' \<or> b' = 1 then Some [a, b, c] else if b = 1 then Some [a, b', c] else None)"
  by (auto simp: broadcast_shapes_def)

lemma components_per_input_spec:
  assumes c: "shape components = B @ [dM, db]"
  shows "\<exists>u. components_per_input components = Some u
          \<and> shape u = B @ [1, db, dM]
          \<and> (\<forall>bs z i m. length bs = length B \<longrightarrow>
                elt u (bs @ [z, i, m]) = elt components (bs @ [m, i]))"
proof -
  let ?n = "length B"
  obtain p where p: "permute components (map int [0..<?n] @ [-1, -2]) = Some p"
    and ps: "shape p = B @ [db, dM]"
    and pe: "\<And>bs x y. length bs = ?n \<Longrightarrow> elt p (bs @ [x, y]) = elt components (bs @ [y, x])"
    using permute_swap_spec[OF c] by blast
  obtain u where u: "unsqueeze p (-3) = Some u"
    and us: "shape u = B @ [1, db, dM]"
    and ue: "\<And>bs z x y. length bs = ?n \<Longrightarrow> elt u (bs @ [z, x, y]) = elt p (bs @ [x, y])"
    using unsqueeze_m3_spec[OF ps] by blast
  have "components_per_input components = Some u"
    unfolding components_per_input_def using c p u by simp
  then show ?thesis using us ue pe by auto
qed

text \<open>The input-neuron axis of \<open>components\<close> may have the size \<open>in_features\<close> or the
  size 1, which is broadcast.\<close>

lemma individual_spec_gen:
  assumes isq: "shape (individual_sensetivity self) = [dO, dI, 1]"
    and c: "shape components = B @ [dM, db]"
    and b: "db = dI \<or> db = 1"
  shows "\<exists>t. individual_sensetivity_weighted self components = Some t
          \<and> shape t = B @ [dO, dI, dM]
          \<and> (\<forall>bs oo i m. valid_index B bs \<longrightarrow> oo < dO \<longrightarrow> i < dI \<longrightarrow> m < dM \<longrightarrow>
                elt t (bs @ [oo, i, m])
                  = elt (individual_sensetivity self) [oo, i, 0]
                    * elt components (bs @ [m, bdim db i]))"
proof -
  let ?n = "length B"
  obtain u where u: "components_per_input components = Some u"
    and us: "shape u = B @ [1, db, dM]"
    and ue: "\<And>bs z i m. length bs = ?n \<Longrightarrow>
               elt u (bs @ [z, i, m]) = elt components (bs @ [m, i])"
    using components_per_input_spec[OF c] by blast
  obtain r where r: "reshape (individual_sensetivity self)
        (replicate ?n 1 @ map int (shape (individual_sensetivity self))) = Some r"
    and rs: "shape r = replicate ?n (Suc 0) @ [dO, dI, 1]"
    and re: "\<And>idx. valid_index [dO, dI, 1] idx \<Longrightarrow>
               elt r (replicate ?n 0 @ idx) = elt (individual_sensetivity self) idx"
    using reshape_prefix_spec[of "individual_sensetivity self" ?n] isq by auto
  have bs: "broadcast_shapes (shape r) (shape u) = Some (B @ [dO, dI, dM])"
    unfolding rs us using b
    by (auto simp: broadcast_shapes_append[of "[dO, dI, Suc 0]" "[Suc 0, db, dM]"] broadcast3)
  let ?t = "\<lparr>shape = B @ [dO, dI, dM],
       elt = (\<lambda>idx. (elt r (bindex (shape r) idx)) * (elt u (bindex (shape u) idx)))\<rparr>"
  have t: "tmul r u = Some ?t"
    unfolding tmul_def by (rule binop_Some[OF bs])
  have isw: "individual_sensetivity_weighted self components = Some ?t"
    unfolding individual_sensetivity_weighted_def
    using c u r t by simp
  have el: "elt ?t (bs @ [oo, i, m])
        = elt (individual_sensetivity self) [oo, i, 0] * elt components (bs @ [m, bdim db i])"
    if v: "valid_index B bs" and o: "oo < dO" and i: "i < dI" and m: "m < dM" for bs oo i m
  proof -
    have len: "length bs = ?n" using v by (rule valid_index_length)
    have b1: "bindex (shape r) (bs @ [oo, i, m]) = replicate ?n 0 @ [oo, i, 0]"
      unfolding rs using len o i
      by (simp add: bindex_append bindex_ones)
    have b2: "bindex (shape u) (bs @ [oo, i, m]) = bs @ [0, bdim db i, m]"
      unfolding us using len m v
      by (simp add: bindex_append bindex_valid)
    show ?thesis
      using o i by (simp add: b1 b2 re ue[OF len])
  qed
  show ?thesis
    by (intro exI[of _ ?t] conjI allI impI) (rule isw, simp, erule (3) el)
qed

lemma individual_spec:
  assumes isq: "shape (individual_sensetivity self) = [dO, dI, 1]"
    and c: "shape components = B @ [dM, dI]"
  shows "\<exists>t. individual_sensetivity_weighted self components = Some t
          \<and> shape t = B @ [dO, dI, dM]
          \<and> (\<forall>bs oo i m. valid_index B bs \<longrightarrow> oo < dO \<longrightarrow> i < dI \<longrightarrow> m < dM \<longrightarrow>
                elt t (bs @ [oo, i, m])
                  = elt (individual_sensetivity self) [oo, i, 0] * elt components (bs @ [m, i]))"
  using individual_spec_gen[OF isq c] by auto

lemma cumulative_env_inputs_spec:
  assumes "shape t = B @ [dO, dI, dM]"
  shows "\<exists>c. cumulative_env_inputs t = Some c \<and> shape c = B @ [dI, dM]
          \<and> (\<forall>bs i m. length bs = length B \<longrightarrow>
                elt c (bs @ [i, m]) = (\<Sum>oo<dO. elt t (bs @ [oo, i, m])))"
  unfolding cumulative_env_inputs_def by (rule sum_dim_m3_spec[OF assms])

lemma cumulative_env_outputs_spec:
  assumes "shape t = B @ [dO, dI, dM]"
  shows "\<exists>c. cumulative_env_outputs t = Some c \<and> shape c = B @ [dO, dM]
          \<and> (\<forall>bs oo m. length bs = length B \<longrightarrow>
                elt c (bs @ [oo, m]) = (\<Sum>i<dI. elt t (bs @ [oo, i, m])))"
  unfolding cumulative_env_outputs_def by (rule sum_dim_m2_spec[OF assms])

lemma env_biased_spec:
  assumes es: "shape (env_sensetivity self) = [dI, dM]"
    and eb: "shape (env_bias self) = [dI, dM]"
    and c: "shape components = B @ [da, db]"
    and cum: "shape cumulative = B @ [dI, dM]"
  shows "\<exists>t. env_biased self components cumulative = Some t
          \<and> shape t = B @ [dI, dM]
          \<and> (\<forall>bs i m. valid_index B bs \<longrightarrow> i < dI \<longrightarrow> m < dM \<longrightarrow>
                elt t (bs @ [i, m])
                  = elt cumulative (bs @ [i, m]) * elt (env_sensetivity self) [i, m]
                    + elt (env_bias self) [i, m])"
proof -
  let ?n = "length B"
  obtain r1 where r1: "reshape (env_sensetivity self)
        (replicate ?n 1 @ map int (shape (env_sensetivity self))) = Some r1"
    and r1s: "shape r1 = replicate ?n (Suc 0) @ [dI, dM]"
    and r1e: "\<And>idx. valid_index [dI, dM] idx \<Longrightarrow>
               elt r1 (replicate ?n 0 @ idx) = elt (env_sensetivity self) idx"
    using reshape_prefix_spec[of "env_sensetivity self" ?n] es by auto
  obtain r2 where r2: "reshape (env_bias self)
        (replicate ?n 1 @ map int (shape (env_bias self))) = Some r2"
    and r2s: "shape r2 = replicate ?n (Suc 0) @ [dI, dM]"
    and r2e: "\<And>idx. valid_index [dI, dM] idx \<Longrightarrow>
               elt r2 (replicate ?n 0 @ idx) = elt (env_bias self) idx"
    using reshape_prefix_spec[of "env_bias self" ?n] eb by auto
  have bs1: "broadcast_shapes (shape cumulative) (shape r1) = Some (B @ [dI, dM])"
    unfolding cum r1s by (simp add: broadcast_shapes_append[of "[dI, dM]" "[dI, dM]"])
  let ?s = "\<lparr>shape = B @ [dI, dM],
       elt = (\<lambda>idx. elt cumulative (bindex (shape cumulative) idx)
                     * elt r1 (bindex (shape r1) idx))\<rparr>"
  have s: "tmul cumulative r1 = Some ?s"
    unfolding tmul_def by (rule binop_Some[OF bs1])
  have bs2: "broadcast_shapes (shape ?s) (shape r2) = Some (B @ [dI, dM])"
    unfolding r2s by (simp add: broadcast_shapes_append[of "[dI, dM]" "[dI, dM]"])
  let ?t = "\<lparr>shape = B @ [dI, dM],
       elt = (\<lambda>idx. elt ?s (bindex (shape ?s) idx) + elt r2 (bindex (shape r2) idx))\<rparr>"
  have t: "tadd ?s r2 = Some ?t"
    unfolding tadd_def by (rule binop_Some[OF bs2])
  have all: "env_biased self components cumulative = Some ?t"
    unfolding env_biased_def Let_def using c r1 r2 s t by simp
  have el: "elt ?t (bs @ [i, m])
      = elt cumulative (bs @ [i, m]) * elt (env_sensetivity self) [i, m]
        + elt (env_bias self) [i, m]"
    if v: "valid_index B bs" and i: "i < dI" and m: "m < dM" for bs i m
  proof -
    have len: "length bs = ?n" using v by (rule valid_index_length)
    have vi: "valid_index (B @ [dI, dM]) (bs @ [i, m])"
      using v i m len by (simp add: valid_index_append)
    have b0: "bindex (B @ [dI, dM]) (bs @ [i, m]) = bs @ [i, m]"
      by (rule bindex_valid[OF vi])
    have b1: "bindex (replicate ?n (Suc 0) @ [dI, dM]) (bs @ [i, m]) = replicate ?n 0 @ [i, m]"
      using len i m by (simp add: bindex_append bindex_ones)
    show ?thesis
      using i m by (simp add: cum r1s r2s b0 b1 r1e r2e)
  qed
  show ?thesis
    by (intro exI[of _ ?t] conjI allI impI) (rule all, simp, erule (2) el)
qed

lemma layer_norm_shape:
  assumes "shape t = B @ ns"
  shows "\<exists>t'. layer_norm ns w b eps t = Some t' \<and> shape t' = B @ ns"
  using assms by (simp add: layer_norm_def Let_def)

lemma norm_call_shape:
  assumes "norm_ok flag n ns" and "shape t = B @ ns"
  shows "\<exists>t'. norm_call n t = Some t' \<and> shape t' = B @ ns"
proof (cases n)
  case Identity
  then show ?thesis using assms by simp
next
  case (LayerNorm ns' w b eps)
  then have "ns' = ns" using assms(1) by (cases flag) simp_all
  then show ?thesis using LayerNorm layer_norm_shape[OF assms(2)] by simp
qed

lemma einsum_ij_ijk_spec:
  assumes a: "shape a = B @ [i1, j1]" and b: "shape b = [i2, j2, k]"
    and i: "bsize i1 i2 = Some i" and j: "bsize j1 j2 = Some j"
  shows "\<exists>t. einsum_ij_ijk a b = Some t \<and> shape t = B @ [i, k]
          \<and> (\<forall>bs x z. length bs = length B \<longrightarrow>
                elt t (bs @ [x, z])
                  = (\<Sum>jj<j. elt a (bs @ [bdim i1 x, bdim j1 jj]) * elt b [bdim i2 x, bdim j2 jj, z]))"
  unfolding einsum_ij_ijk_def Let_def using a b i j
  by (simp add: nth_append)

lemma einsum_ij_ij_spec:
  assumes a: "shape a = B @ [i1, j1]" and b: "shape b = [i2, j2]"
    and i: "bsize i1 i2 = Some i" and j: "bsize j1 j2 = Some j"
  shows "\<exists>t. einsum_ij_ij a b = Some t \<and> shape t = B @ [i, j]
          \<and> (\<forall>bs x y. length bs = length B \<longrightarrow>
                elt t (bs @ [x, y])
                  = elt a (bs @ [bdim i1 x, bdim j1 y]) * elt b [bdim i2 x, bdim j2 y])"
  unfolding einsum_ij_ij_def Let_def using a b i j
  by (simp add: nth_append)

lemma bsize_self [simp]: "bsize a a = Some a"
  by (simp add: bsize_def)

lemma bsize_one [simp]: "bsize a (Suc 0) = Some a"
  by (simp add: bsize_def)

lemma linear_spec:
  assumes inp: "shape inp = B @ [dI]" and w: "shape w = [dO, dI]"
    and b: "case b of None \<Rightarrow> True | Some bt \<Rightarrow> shape bt = [dO]"
  shows "\<exists>t. linear inp w b = Some t \<and> shape t = B @ [dO]
          \<and> (\<forall>bs oo. length bs = length B \<longrightarrow>
                elt t (bs @ [oo])
                  = (\<Sum>i<dI. elt inp (bs @ [i]) * elt w [oo, i])
                    + (case b of None \<Rightarrow> 0 | Some bt \<Rightarrow> elt bt [oo]))"
  unfolding linear_def Let_def using inp w b
  by (cases b) (simp_all add: nth_append)

section \<open>Perceptual signal and gating\<close>


lemma broadcast2_l: "broadcast_shapes [a, Suc 0] [a, m] = Some [a, m]"
  by (auto simp: broadcast_shapes_def)

lemma broadcast2_r: "broadcast_shapes [a, m] [a, Suc 0] = Some [a, m]"
  by (auto simp: broadcast_shapes_def)

lemma perceptual_x_spec:
  assumes x: "shape x = B @ [dI]"
    and en: "shape env_normalized = B @ [dI, dM]"
    and pc: "shape (perception self) = [dI, dM, 1]"
    and pb: "shape (perceptual_bias self) = [dI]"
  shows "\<exists>p. perceptual_x self x env_normalized = Some p
          \<and> shape p = B @ [dI]
          \<and> (\<forall>bs i. valid_index B bs \<longrightarrow> i < dI \<longrightarrow>
                elt p (bs @ [i])
                  = (\<Sum>m<dM. elt x (bs @ [i]) * elt env_normalized (bs @ [i, m])
                                * elt (perception self) [i, m, 0])
                    + elt (perceptual_bias self) [i])"
proof -
  let ?n = "length B"
  obtain x1 where x1: "unsqueeze x (-1) = Some x1"
    and x1s: "shape x1 = B @ [dI, 1]"
    and x1e: "\<And>bs a z. length bs = ?n \<Longrightarrow> elt x1 (bs @ [a, z]) = elt x (bs @ [a])"
    using unsqueeze_m1_spec[OF x] by blast
  have bs1: "broadcast_shapes (shape x1) (shape env_normalized) = Some (B @ [dI, dM])"
    unfolding x1s en
    by (simp add: broadcast_shapes_append[of "[dI, Suc 0]" "[dI, dM]"] broadcast2_l)
  let ?p1 = "\<lparr>shape = B @ [dI, dM],
       elt = (\<lambda>idx. elt x1 (bindex (shape x1) idx)
                     * elt env_normalized (bindex (shape env_normalized) idx))\<rparr>"
  have p1: "tmul x1 env_normalized = Some ?p1"
    unfolding tmul_def by (rule binop_Some[OF bs1])
  obtain p2 where p2: "einsum_ij_ijk ?p1 (perception self) = Some p2"
    and p2s: "shape p2 = B @ [dI, 1]"
    and p2e: "\<And>bs a z. length bs = ?n \<Longrightarrow> elt p2 (bs @ [a, z])
        = (\<Sum>jj<dM. elt ?p1 (bs @ [bdim dI a, bdim dM jj])
                      * elt (perception self) [bdim dI a, bdim dM jj, z])"
    using einsum_ij_ijk_spec[of ?p1 B dI dM "perception self" dI dM 1 dI dM] pc
    by auto
  obtain p3 where p3: "squeeze p2 (-1) = Some p3"
    and p3s: "shape p3 = B @ [dI]"
    and p3e: "\<And>bs a. length bs = ?n \<Longrightarrow> elt p3 (bs @ [a]) = elt p2 (bs @ [a, 0])"
    using squeeze_m1_spec[OF p2s] by blast
  have bs2: "broadcast_shapes (shape p3) (shape (perceptual_bias self)) = Some (B @ [dI])"
    unfolding p3s pb
    using broadcast_shapes_append[of "[dI]" "[dI]" B "[]"] by simp
  let ?p = "\<lparr>shape = B @ [dI],
       elt = (\<lambda>idx. elt p3 (bindex (shape p3) idx)
                     + elt (perceptual_bias self) (bindex (shape (perceptual_bias self)) idx))\<rparr>"
  have p: "tadd p3 (perceptual_bias self) = Some ?p"
    unfolding tadd_def by (rule binop_Some[OF bs2])
  have all: "perceptual_x self x env_normalized = Some ?p"
    unfolding perceptual_x_def using x1 p1 p2 p3 p by simp
  have el: "elt ?p (bs @ [i])
      = (\<Sum>m<dM. elt x (bs @ [i]) * elt env_normalized (bs @ [i, m])
                    * elt (perception self) [i, m, 0])
        + elt (perceptual_bias self) [i]"
    if v: "valid_index B bs" and i: "i < dI" for bs i
  proof -
    have len: "length bs = ?n" using v by (rule valid_index_length)
    have b3: "bindex (shape p3) (bs @ [i]) = bs @ [i]"
      unfolding p3s using v i len by (intro bindex_valid) (simp add: valid_index_append)
    have b4: "bindex (shape (perceptual_bias self)) (bs @ [i]) = [i]"
      unfolding pb using i by (simp add: bindex_suffix[of "[i]" "[dI]"])
    have inner: "elt ?p1 (bs @ [bdim dI i, bdim dM jj])
                 * elt (perception self) [bdim dI i, bdim dM jj, 0]
        = elt x (bs @ [i]) * elt env_normalized (bs @ [i, jj])
          * elt (perception self) [i, jj, 0]" if jj: "jj < dM" for jj
    proof -
      have c1: "bindex (shape x1) (bs @ [i, jj]) = bs @ [i, 0]"
        unfolding x1s using v i len by (simp add: bindex_append bindex_valid)
      have c2: "bindex (shape env_normalized) (bs @ [i, jj]) = bs @ [i, jj]"
        unfolding en using v i jj len by (intro bindex_valid) (simp add: valid_index_append)
      show ?thesis using i jj by (simp add: c1 c2 x1e[OF len])
    qed
    have "elt p2 (bs @ [i, 0])
        = (\<Sum>m<dM. elt x (bs @ [i]) * elt env_normalized (bs @ [i, m])
                      * elt (perception self) [i, m, 0])"
      unfolding p2e[OF len] by (rule sum.cong[OF refl]) (rule inner, simp)
    then show ?thesis
      by (simp add: b3 b4 p3e[OF len])
  qed
  show ?thesis
    by (intro exI[of _ ?p] conjI allI impI) (rule all, simp, erule (1) el)
qed

lemma gated_env_spec:
  assumes cum: "shape cumulative = B @ [dO, dM]"
    and tx: "shape transformed_x = B @ [dO]"
  shows "\<exists>g. gated_env cumulative transformed_x = Some g
          \<and> shape g = B @ [dO, dM]
          \<and> (\<forall>bs oo m. valid_index B bs \<longrightarrow> oo < dO \<longrightarrow> m < dM \<longrightarrow>
                elt g (bs @ [oo, m])
                  = elt cumulative (bs @ [oo, m]) * elt transformed_x (bs @ [oo]))"
proof -
  let ?n = "length B"
  obtain t1 where t1: "unsqueeze transformed_x (-1) = Some t1"
    and t1s: "shape t1 = B @ [dO, 1]"
    and t1e: "\<And>bs a z. length bs = ?n \<Longrightarrow> elt t1 (bs @ [a, z]) = elt transformed_x (bs @ [a])"
    using unsqueeze_m1_spec[OF tx] by blast
  have bs1: "broadcast_shapes (shape cumulative) (shape t1) = Some (B @ [dO, dM])"
    unfolding t1s cum
    by (simp add: broadcast_shapes_append[of "[dO, dM]" "[dO, Suc 0]"] broadcast2_r)
  let ?g = "\<lparr>shape = B @ [dO, dM],
       elt = (\<lambda>idx. elt cumulative (bindex (shape cumulative) idx)
                     * elt t1 (bindex (shape t1) idx))\<rparr>"
  have g: "tmul cumulative t1 = Some ?g"
    unfolding tmul_def by (rule binop_Some[OF bs1])
  have all: "gated_env cumulative transformed_x = Some ?g"
    unfolding gated_env_def using t1 g by simp
  have el: "elt ?g (bs @ [oo, m])
      = elt cumulative (bs @ [oo, m]) * elt transformed_x (bs @ [oo])"
    if v: "valid_index B bs" and o: "oo < dO" and m: "m < dM" for bs oo m
  proof -
    have len: "length bs = ?n" using v by (rule valid_index_length)
    have c1: "bindex (shape t1) (bs @ [oo, m]) = bs @ [oo, 0]"
      unfolding t1s using v o len by (simp add: bindex_append bindex_valid)
    have c2: "bindex (shape cumulative) (bs @ [oo, m]) = bs @ [oo, m]"
      unfolding cum using v o m len by (intro bindex_valid) (simp add: valid_index_append)
    show ?thesis by (simp add: c1 c2 t1e[OF len])
  qed
  show ?thesis
    by (intro exI[of _ ?g] conjI allI impI) (rule all, simp, erule (2) el)
qed

section \<open>Emission\<close>


lemma infer_size_last:
  assumes "0 < prod_list s"
  shows "infer_size (map int s @ [-1]) n
           = (if n mod prod_list s = 0 then Some (s @ [n div prod_list s]) else None)"
proof -
  have e: "- 1 \<notin> int ` set s" by auto
  have f: "map (\<lambda>d. if d = - 1 then k else nat d) (map int s) = s" for k :: nat
    by (induction s) simp_all
  show ?thesis
    unfolding infer_size_def Let_def
    using assms e
    by (auto simp: filter_nonneg_int filter_neg_int prod_list_map_int f simp del: map_map)
qed

lemma reshape_split_spec:
  assumes t: "shape t = B @ [dO, dN * 4]"
    and pos: "0 < prod_list B" "0 < dO" "0 < dN"
  shows "\<exists>t'. reshape t (map int (butlast (shape t)) @ [int dN, -1]) = Some t'
          \<and> shape t' = B @ [dO, dN, 4]
          \<and> (\<forall>bs oo n q. valid_index B bs \<longrightarrow> oo < dO \<longrightarrow> n < dN \<longrightarrow> q < 4 \<longrightarrow>
                elt t' (bs @ [oo, n, q]) = elt t (bs @ [oo, n * 4 + q]))"
proof -
  let ?s = "B @ [dO, dN]"
  have tgt: "map int (butlast (shape t)) @ [int dN, -1] = map int ?s @ [-1]"
    by (simp add: t butlast_append)
  have p: "0 < prod_list ?s" using pos by simp
  have ne: "numel t = prod_list ?s * 4" by (simp add: numel_def t)
  have inf: "infer_size (map int ?s @ [-1]) (numel t) = Some (?s @ [4])"
    unfolding infer_size_last[OF p] ne using p by simp
  let ?t' = "\<lparr>shape = B @ [dO, dN, 4],
              elt = (\<lambda>idx. elt t (unravel (shape t) (ravel (B @ [dO, dN, 4]) idx)))\<rparr>"
  have r: "reshape t (map int (butlast (shape t)) @ [int dN, -1]) = Some ?t'"
    unfolding reshape_def tgt inf by simp
  have el: "elt ?t' (bs @ [oo, n, q]) = elt t (bs @ [oo, n * 4 + q])"
    if v: "valid_index B bs" and o: "oo < dO" and n: "n < dN" and q: "q < 4" for bs oo n q
  proof -
    have len: "length bs = length B" using v by (rule valid_index_length)
    have lt: "n * 4 + q < dN * 4" using n q by simp
    have vi: "valid_index (shape t) (bs @ [oo, n * 4 + q])"
      unfolding t using v o lt len by (simp add: valid_index_append)
    have "ravel (B @ [dO, dN, 4]) (bs @ [oo, n, q]) = ravel (shape t) (bs @ [oo, n * 4 + q])"
      unfolding t using len by (simp add: ravel_append[of B bs] algebra_simps)
    then show ?thesis by (simp add: unravel_ravel[OF vi])
  qed
  show ?thesis
    by (intro exI[of _ ?t'] conjI allI impI) (rule r, simp, erule (3) el)
qed


lemma bsize_shared: "dF = dO \<or> dF = Suc 0 \<Longrightarrow> bsize dO dF = Some dO"
  by (auto simp: bsize_def)

lemma param_quads_spec:
  assumes m: "shape modulated = B @ [dO, dM]"
    and em: "shape (emission self) = [dF, dM, dN * 4]"
    and f: "dF = dO \<or> dF = 1"
    and sc: "shape (emission_scale self) = [dO, dN * 4]"
    and eb: "shape (emission_bias self) = [dO, dN * 4]"
    and n: "theta_modes_out self = dN"
    and pos: "0 < prod_list B" "0 < dO" "0 < dN"
  shows "\<exists>pq. param_quads self modulated = Some pq
          \<and> shape pq = B @ [dN, 4, dO]
          \<and> (\<forall>bs k q oo. valid_index B bs \<longrightarrow> k < dN \<longrightarrow> q < 4 \<longrightarrow> oo < dO \<longrightarrow>
                elt pq (bs @ [k, q, oo])
                  = (\<Sum>j<dM. elt modulated (bs @ [oo, j])
                                * elt (emission self) [bdim dF oo, j, k * 4 + q])
                    * elt (emission_scale self) [oo, k * 4 + q]
                    + elt (emission_bias self) [oo, k * 4 + q])"
proof -
  let ?n = "length B"
  let ?Q = "dN * 4"
  obtain raw where raw: "einsum_ij_ijk modulated (emission self) = Some raw"
    and raws: "shape raw = B @ [dO, ?Q]"
    and rawe: "\<And>bs a z. length bs = ?n \<Longrightarrow> elt raw (bs @ [a, z])
        = (\<Sum>jj<dM. elt modulated (bs @ [bdim dO a, bdim dM jj])
                      * elt (emission self) [bdim dF a, bdim dM jj, z])"
    using einsum_ij_ijk_spec[OF m em bsize_shared bsize_self] f by auto
  obtain scaled where scaled: "einsum_ij_ij raw (emission_scale self) = Some scaled"
    and scaleds: "shape scaled = B @ [dO, ?Q]"
    and scalede: "\<And>bs a z. length bs = ?n \<Longrightarrow> elt scaled (bs @ [a, z])
        = elt raw (bs @ [bdim dO a, bdim ?Q z])
          * elt (emission_scale self) [bdim dO a, bdim ?Q z]"
    using einsum_ij_ij_spec[OF raws sc bsize_self bsize_self] by auto
  have len2: "length (take (length (shape scaled) - 2) (shape scaled)) = ?n"
    by (simp add: scaleds)
  obtain r where r: "reshape (emission_bias self)
        (replicate ?n 1 @ map int (shape (emission_bias self))) = Some r"
    and rs: "shape r = replicate ?n (Suc 0) @ [dO, ?Q]"
    and re: "\<And>idx. valid_index [dO, ?Q] idx \<Longrightarrow>
               elt r (replicate ?n 0 @ idx) = elt (emission_bias self) idx"
    using reshape_prefix_spec[of "emission_bias self" ?n] eb by auto
  have bs1: "broadcast_shapes (shape scaled) (shape r) = Some (B @ [dO, ?Q])"
    unfolding scaleds rs by (simp add: broadcast_shapes_append[of "[dO, ?Q]" "[dO, ?Q]"])
  let ?b = "\<lparr>shape = B @ [dO, ?Q],
       elt = (\<lambda>idx. elt scaled (bindex (shape scaled) idx) + elt r (bindex (shape r) idx))\<rparr>"
  have b: "tadd scaled r = Some ?b"
    unfolding tadd_def by (rule binop_Some[OF bs1])
  have bsh: "shape ?b = B @ [dO, ?Q]" by simp
  obtain pq where pq: "reshape ?b (map int (butlast (shape ?b)) @ [int dN, -1]) = Some pq"
    and pqs: "shape pq = B @ [dO, dN, 4]"
    and pqe: "\<And>bs oo k q. valid_index B bs \<Longrightarrow> oo < dO \<Longrightarrow> k < dN \<Longrightarrow> q < 4 \<Longrightarrow>
                elt pq (bs @ [oo, k, q]) = elt ?b (bs @ [oo, k * 4 + q])"
    using reshape_split_spec[OF bsh pos] by blast
  have len3: "length (take (length (shape pq) - 3) (shape pq)) = ?n"
    by (simp add: pqs)
  obtain res where res: "permute pq (map int [0..<?n] @ [-2, -1, -3]) = Some res"
    and ress: "shape res = B @ [dN, 4, dO]"
    and rese: "\<And>bs x y z. length bs = ?n \<Longrightarrow>
                 elt res (bs @ [x, y, z]) = elt pq (bs @ [z, x, y])"
    using permute_rot_spec[OF pqs] by blast
  have all: "param_quads self modulated = Some res"
    unfolding param_quads_def using raw scaled len2 r b pq len3 res n by simp
  have el: "elt res (bs @ [k, q, oo])
      = (\<Sum>j<dM. elt modulated (bs @ [oo, j]) * elt (emission self) [bdim dF oo, j, k * 4 + q])
        * elt (emission_scale self) [oo, k * 4 + q]
        + elt (emission_bias self) [oo, k * 4 + q]"
    if v: "valid_index B bs" and k: "k < dN" and q: "q < 4" and o: "oo < dO" for bs k q oo
  proof -
    have len: "length bs = ?n" using v by (rule valid_index_length)
    have lt: "k * 4 + q < ?Q" using k q by simp
    have vi: "valid_index (B @ [dO, ?Q]) (bs @ [oo, k * 4 + q])"
      using v o lt len by (simp add: valid_index_append)
    have c1: "bindex (shape scaled) (bs @ [oo, k * 4 + q]) = bs @ [oo, k * 4 + q]"
      unfolding scaleds by (rule bindex_valid[OF vi])
    have c2: "bindex (shape r) (bs @ [oo, k * 4 + q]) = replicate ?n 0 @ [oo, k * 4 + q]"
      unfolding rs using len o lt by (simp add: bindex_append bindex_ones)
    have s1: "(\<Sum>jj<dM. elt modulated (bs @ [bdim dO oo, bdim dM jj])
                      * elt (emission self) [bdim dF oo, bdim dM jj, k * 4 + q])
        = (\<Sum>j<dM. elt modulated (bs @ [oo, j]) * elt (emission self) [bdim dF oo, j, k * 4 + q])"
      using o by (intro sum.cong[OF refl]) simp
    have "elt res (bs @ [k, q, oo]) = elt ?b (bs @ [oo, k * 4 + q])"
      by (simp only: rese[OF len] pqe[OF v o k q])
    also have "\<dots> = elt scaled (bs @ [oo, k * 4 + q]) + elt (emission_bias self) [oo, k * 4 + q]"
      using o lt by (simp add: c1 c2 re)
    also have "elt scaled (bs @ [oo, k * 4 + q])
        = elt raw (bs @ [oo, k * 4 + q]) * elt (emission_scale self) [oo, k * 4 + q]"
      using o lt by (simp add: scalede[OF len])
    also have "elt raw (bs @ [oo, k * 4 + q])
        = (\<Sum>j<dM. elt modulated (bs @ [oo, j]) * elt (emission self) [bdim dF oo, j, k * 4 + q])"
      by (simp only: rawe[OF len] s1)
    finally show ?thesis .
  qed
  show ?thesis
    by (intro exI[of _ res] conjI allI impI) (rule all, rule ress, erule (3) el)
qed

section \<open>The whole pipeline\<close>


lemma forward_locals_SomeD:
  assumes "forward_locals self x components = Some l"
  shows "individual_sensetivity_weighted self components = Some (l_individual l)"
    and "cumulative_env_inputs (l_individual l) = Some (l_cumulative_env_inputs l)"
    and "env_biased self components (l_cumulative_env_inputs l) = Some (l_env_biased l)"
    and "norm_call (norm_env_input self) (l_env_biased l) = Some (l_env_normalized l)"
    and "perceptual_x self x (l_env_normalized l) = Some (l_perceptual_x l)"
    and "linear (l_perceptual_x l) (weight self) (bias self) = Some (l_transformed_x l)"
    and "cumulative_env_outputs (l_individual l) = Some (l_cumulative_env_outputs l)"
    and "gated_env (l_cumulative_env_outputs l) (l_transformed_x l) = Some (l_gated_env l)"
    and "norm_call (norm_env_output self) (l_gated_env l) = Some (l_modulated_env l)"
    and "param_quads self (l_modulated_env l) = Some (l_param_quads l)"
  using assms unfolding forward_locals_def
  by (auto split: Option.bind_splits)

lemma layer_okD:
  assumes "layer_ok self"
  shows "0 < in_features self" "0 < theta_modes_in self" "0 < theta_modes_out self"
    and "theta_quad_out self = theta_modes_out self * 4"
    and "theta_feautures self = out_features self \<or> theta_feautures self = 1"
    and "shape (individual_sensetivity self) = [out_features self, in_features self, 1]"
    and "shape (env_sensetivity self) = [in_features self, theta_modes_in self]"
    and "shape (env_bias self) = [in_features self, theta_modes_in self]"
    and "norm_ok (theta_normalize_env_input self) (norm_env_input self)
           [in_features self, theta_modes_in self]"
    and "norm_ok (theta_normalize_env_output self) (norm_env_output self)
           [out_features self, theta_modes_in self]"
    and "shape (perception self) = [in_features self, theta_modes_in self, 1]"
    and "shape (perceptual_bias self) = [in_features self]"
    and "shape (emission self)
           = [theta_feautures self, theta_modes_in self, theta_modes_out self * 4]"
    and "shape (emission_scale self) = [out_features self, theta_modes_out self * 4]"
    and "shape (emission_bias self) = [out_features self, theta_modes_out self * 4]"
    and "shape (weight self) = [out_features self, in_features self]"
    and "case bias self of None \<Rightarrow> True | Some b \<Rightarrow> shape b = [out_features self]"
  using assms unfolding layer_ok_def by simp_all

lemma infer_size_last_zero:
  assumes "prod_list s = 0"
  shows "infer_size (map int s @ [-1]) n = None"
proof -
  have e: "- 1 \<notin> int ` set s" by auto
  show ?thesis
    unfolding infer_size_def Let_def
    using assms e
    by (auto simp: filter_nonneg_int filter_neg_int prod_list_map_int simp del: map_map)
qed

text \<open>With an empty batch, or without output neurons, the reshape with an inferred size
  has nothing to infer the size from and fails.\<close>

lemma param_quads_fails:
  assumes m: "shape modulated = B @ [dO, dM]"
    and em: "shape (emission self) = [dF, dM, dQ]"
    and f: "dF = dO \<or> dF = 1"
    and sc: "shape (emission_scale self) = [dO, dQ]"
    and eb: "shape (emission_bias self) = [dO, dQ]"
    and z: "prod_list B = 0 \<or> dO = 0 \<or> theta_modes_out self = 0"
  shows "param_quads self modulated = None"
proof -
  let ?n = "length B"
  obtain raw where raw: "einsum_ij_ijk modulated (emission self) = Some raw"
    and raws: "shape raw = B @ [dO, dQ]"
    using einsum_ij_ijk_spec[OF m em bsize_shared bsize_self] f by auto
  obtain scaled where scaled: "einsum_ij_ij raw (emission_scale self) = Some scaled"
    and scaleds: "shape scaled = B @ [dO, dQ]"
    using einsum_ij_ij_spec[OF raws sc bsize_self bsize_self] by auto
  have len2: "length (take (length (shape scaled) - 2) (shape scaled)) = ?n"
    by (simp add: scaleds)
  obtain r where r: "reshape (emission_bias self)
        (replicate ?n 1 @ map int (shape (emission_bias self))) = Some r"
    and rs: "shape r = replicate ?n (Suc 0) @ [dO, dQ]"
    using reshape_prefix_spec[of "emission_bias self" ?n] eb by auto
  have bs1: "broadcast_shapes (shape scaled) (shape r) = Some (B @ [dO, dQ])"
    unfolding scaleds rs by (simp add: broadcast_shapes_append[of "[dO, dQ]" "[dO, dQ]"])
  let ?b = "\<lparr>shape = B @ [dO, dQ],
       elt = (\<lambda>idx. elt scaled (bindex (shape scaled) idx) + elt r (bindex (shape r) idx))\<rparr>"
  have b: "tadd scaled r = Some ?b"
    unfolding tadd_def by (rule binop_Some[OF bs1])
  let ?s = "B @ [dO, theta_modes_out self]"
  have tgt: "map int (butlast (shape ?b)) @ [int (theta_modes_out self), -1] = map int ?s @ [-1]"
    by (simp add: butlast_append)
  have p0: "prod_list ?s = 0" using z by auto
  have "reshape ?b (map int (butlast (shape ?b)) @ [int (theta_modes_out self), -1]) = None"
    unfolding reshape_def tgt infer_size_last_zero[OF p0] by simp
  then show ?thesis
    unfolding param_quads_def using raw scaled len2 r b by simp
qed

text \<open>Everything up to the emission, for \<open>x\<close> of shape \<open>[*B, in_features]\<close> and
  \<open>components\<close> of shape \<open>[*B, theta_modes_in, b]\<close> with \<open>b\<close> either \<open>in_features\<close> or 1.\<close>

lemma forward_stages:
  assumes ok: "layer_ok self"
    and x: "shape x = B @ [in_features self]"
    and c: "shape components = B @ [theta_modes_in self, db]"
    and b: "db = in_features self \<or> db = 1"
  shows "\<exists>ind ci eb en px tx co g me.
       (individual_sensetivity_weighted self components = Some ind)
     \<and> (cumulative_env_inputs ind = Some ci)
     \<and> (env_biased self components ci = Some eb)
     \<and> (norm_call (norm_env_input self) eb = Some en)
     \<and> (perceptual_x self x en = Some px)
     \<and> (linear px (weight self) (bias self) = Some tx)
     \<and> (cumulative_env_outputs ind = Some co)
     \<and> (gated_env co tx = Some g)
     \<and> (norm_call (norm_env_output self) g = Some me)
     \<and> (shape ind = B @ [out_features self, in_features self, theta_modes_in self])
     \<and> (shape ci = B @ [in_features self, theta_modes_in self])
     \<and> (shape eb = B @ [in_features self, theta_modes_in self])
     \<and> (shape en = B @ [in_features self, theta_modes_in self])
     \<and> (shape px = B @ [in_features self])
     \<and> (shape tx = B @ [out_features self])
     \<and> (shape co = B @ [out_features self, theta_modes_in self])
     \<and> (shape g = B @ [out_features self, theta_modes_in self])
     \<and> (shape me = B @ [out_features self, theta_modes_in self])
     \<and> (\<forall>bs oo i m. valid_index B bs \<longrightarrow> oo < out_features self \<longrightarrow> i < in_features self \<longrightarrow> m < theta_modes_in self \<longrightarrow>
           elt ind (bs @ [oo, i, m])
             = elt (individual_sensetivity self) [oo, i, 0] * elt components (bs @ [m, bdim db i]))
     \<and> (\<forall>bs i m. valid_index B bs \<longrightarrow>
           elt ci (bs @ [i, m]) = (\<Sum>oo<out_features self. elt ind (bs @ [oo, i, m])))
     \<and> (\<forall>bs i m. valid_index B bs \<longrightarrow> i < in_features self \<longrightarrow> m < theta_modes_in self \<longrightarrow>
           elt eb (bs @ [i, m])
             = elt ci (bs @ [i, m]) * elt (env_sensetivity self) [i, m]
               + elt (env_bias self) [i, m])
     \<and> (\<forall>bs i. valid_index B bs \<longrightarrow> i < in_features self \<longrightarrow>
           elt px (bs @ [i])
             = (\<Sum>m<theta_modes_in self. elt x (bs @ [i]) * elt en (bs @ [i, m])
                           * elt (perception self) [i, m, 0])
               + elt (perceptual_bias self) [i])
     \<and> (\<forall>bs oo. valid_index B bs \<longrightarrow>
           elt tx (bs @ [oo])
             = (\<Sum>i<in_features self. elt px (bs @ [i]) * elt (weight self) [oo, i])
               + (case bias self of None \<Rightarrow> 0 | Some bt \<Rightarrow> elt bt [oo]))
     \<and> (\<forall>bs oo m. valid_index B bs \<longrightarrow>
           elt co (bs @ [oo, m]) = (\<Sum>i<in_features self. elt ind (bs @ [oo, i, m])))
     \<and> (\<forall>bs oo m. valid_index B bs \<longrightarrow> oo < out_features self \<longrightarrow> m < theta_modes_in self \<longrightarrow>
           elt g (bs @ [oo, m]) = elt co (bs @ [oo, m]) * elt tx (bs @ [oo]))"
proof -
  note d = layer_okD[OF ok]
  obtain ind where ind: "individual_sensetivity_weighted self components = Some ind"
    and inds: "shape ind = B @ [out_features self, in_features self, theta_modes_in self]"
    and inde: "\<And>bs oo i m. valid_index B bs \<Longrightarrow> oo < out_features self \<Longrightarrow> i < in_features self \<Longrightarrow> m < theta_modes_in self \<Longrightarrow>
           elt ind (bs @ [oo, i, m])
             = elt (individual_sensetivity self) [oo, i, 0] * elt components (bs @ [m, bdim db i])"
    using individual_spec_gen[OF d(6) c b] by blast
  obtain ci where ci: "cumulative_env_inputs ind = Some ci"
    and cis: "shape ci = B @ [in_features self, theta_modes_in self]"
    and cie: "\<And>bs i m. length bs = length B \<Longrightarrow>
           elt ci (bs @ [i, m]) = (\<Sum>oo<out_features self. elt ind (bs @ [oo, i, m]))"
    using cumulative_env_inputs_spec[OF inds] by blast
  obtain eb where eb: "env_biased self components ci = Some eb"
    and ebs: "shape eb = B @ [in_features self, theta_modes_in self]"
    and ebe: "\<And>bs i m. valid_index B bs \<Longrightarrow> i < in_features self \<Longrightarrow> m < theta_modes_in self \<Longrightarrow>
           elt eb (bs @ [i, m])
             = elt ci (bs @ [i, m]) * elt (env_sensetivity self) [i, m]
               + elt (env_bias self) [i, m]"
    using env_biased_spec[OF d(7) d(8) c cis] by blast
  obtain en where en: "norm_call (norm_env_input self) eb = Some en"
    and ens: "shape en = B @ [in_features self, theta_modes_in self]"
    using norm_call_shape[OF d(9) ebs] by blast
  obtain px where px: "perceptual_x self x en = Some px"
    and pxs: "shape px = B @ [in_features self]"
    and pxe: "\<And>bs i. valid_index B bs \<Longrightarrow> i < in_features self \<Longrightarrow>
           elt px (bs @ [i])
             = (\<Sum>m<theta_modes_in self. elt x (bs @ [i]) * elt en (bs @ [i, m])
                           * elt (perception self) [i, m, 0])
               + elt (perceptual_bias self) [i]"
    using perceptual_x_spec[OF x ens d(11) d(12)] by blast
  obtain tx where tx: "linear px (weight self) (bias self) = Some tx"
    and txs: "shape tx = B @ [out_features self]"
    and txe: "\<And>bs oo. length bs = length B \<Longrightarrow>
           elt tx (bs @ [oo])
             = (\<Sum>i<in_features self. elt px (bs @ [i]) * elt (weight self) [oo, i])
               + (case bias self of None \<Rightarrow> 0 | Some bt \<Rightarrow> elt bt [oo])"
    using linear_spec[OF pxs d(16) d(17)] by blast
  obtain co where co: "cumulative_env_outputs ind = Some co"
    and cos: "shape co = B @ [out_features self, theta_modes_in self]"
    and coe: "\<And>bs oo m. length bs = length B \<Longrightarrow>
           elt co (bs @ [oo, m]) = (\<Sum>i<in_features self. elt ind (bs @ [oo, i, m]))"
    using cumulative_env_outputs_spec[OF inds] by blast
  obtain g where g: "gated_env co tx = Some g"
    and gs: "shape g = B @ [out_features self, theta_modes_in self]"
    and ge: "\<And>bs oo m. valid_index B bs \<Longrightarrow> oo < out_features self \<Longrightarrow> m < theta_modes_in self \<Longrightarrow>
           elt g (bs @ [oo, m]) = elt co (bs @ [oo, m]) * elt tx (bs @ [oo])"
    using gated_env_spec[OF cos txs] by blast
  obtain me where me: "norm_call (norm_env_output self) g = Some me"
    and mes: "shape me = B @ [out_features self, theta_modes_in self]"
    using norm_call_shape[OF d(10) gs] by blast
  have v2: "\<forall>bs i m. valid_index B bs \<longrightarrow>
           elt ci (bs @ [i, m]) = (\<Sum>oo<out_features self. elt ind (bs @ [oo, i, m]))"
    using cie valid_index_length by simp
  have v5: "\<forall>bs oo. valid_index B bs \<longrightarrow>
           elt tx (bs @ [oo])
             = (\<Sum>i<in_features self. elt px (bs @ [i]) * elt (weight self) [oo, i])
               + (case bias self of None \<Rightarrow> 0 | Some bt \<Rightarrow> elt bt [oo])"
    using txe valid_index_length by simp
  have v6: "\<forall>bs oo m. valid_index B bs \<longrightarrow>
           elt co (bs @ [oo, m]) = (\<Sum>i<in_features self. elt ind (bs @ [oo, i, m]))"
    using coe valid_index_length by simp
  show ?thesis
    apply (rule exI[of _ ind], rule exI[of _ ci], rule exI[of _ eb], rule exI[of _ en],
           rule exI[of _ px], rule exI[of _ tx], rule exI[of _ co], rule exI[of _ g],
           rule exI[of _ me])
    apply (intro conjI)
    apply (rule ind ci eb en px tx co g me inds cis ebs ens pxs txs cos gs mes v2 v5 v6)+
    subgoal using inde by blast
    subgoal by (rule v2)
    subgoal using ebe by blast
    subgoal using pxe by blast
    subgoal by (rule v5)
    subgoal by (rule v6)
    subgoal using ge by blast
    done
qed

lemma forward_locals_valuesD:
  assumes ok: "layer_ok self"
    and x: "shape x = B @ [in_features self]"
    and c: "shape components = B @ [theta_modes_in self, db]"
    and b: "db = in_features self \<or> db = 1"
    and fl: "forward_locals self x components = Some l"
  shows "0 < prod_list B" "0 < out_features self"
    "shape (l_individual l) = B @ [out_features self, in_features self, theta_modes_in self]"
    "shape (l_cumulative_env_inputs l) = B @ [in_features self, theta_modes_in self]"
    "shape (l_env_biased l) = B @ [in_features self, theta_modes_in self]"
    "shape (l_env_normalized l) = B @ [in_features self, theta_modes_in self]"
    "shape (l_perceptual_x l) = B @ [in_features self]"
    "shape (l_transformed_x l) = B @ [out_features self]"
    "shape (l_cumulative_env_outputs l) = B @ [out_features self, theta_modes_in self]"
    "shape (l_gated_env l) = B @ [out_features self, theta_modes_in self]"
    "shape (l_modulated_env l) = B @ [out_features self, theta_modes_in self]"
    "\<forall>bs oo i m. valid_index B bs \<longrightarrow> oo < out_features self \<longrightarrow> i < in_features self \<longrightarrow> m < theta_modes_in self \<longrightarrow>
           elt (l_individual l) (bs @ [oo, i, m])
             = elt (individual_sensetivity self) [oo, i, 0] * elt components (bs @ [m, bdim db i])"
    "\<forall>bs i m. valid_index B bs \<longrightarrow>
           elt (l_cumulative_env_inputs l) (bs @ [i, m]) = (\<Sum>oo<out_features self. elt (l_individual l) (bs @ [oo, i, m]))"
    "\<forall>bs i m. valid_index B bs \<longrightarrow> i < in_features self \<longrightarrow> m < theta_modes_in self \<longrightarrow>
           elt (l_env_biased l) (bs @ [i, m])
             = elt (l_cumulative_env_inputs l) (bs @ [i, m]) * elt (env_sensetivity self) [i, m]
               + elt (env_bias self) [i, m]"
    "\<forall>bs i. valid_index B bs \<longrightarrow> i < in_features self \<longrightarrow>
           elt (l_perceptual_x l) (bs @ [i])
             = (\<Sum>m<theta_modes_in self. elt x (bs @ [i]) * elt (l_env_normalized l) (bs @ [i, m])
                           * elt (perception self) [i, m, 0])
               + elt (perceptual_bias self) [i]"
    "\<forall>bs oo. valid_index B bs \<longrightarrow>
           elt (l_transformed_x l) (bs @ [oo])
             = (\<Sum>i<in_features self. elt (l_perceptual_x l) (bs @ [i]) * elt (weight self) [oo, i])
               + (case bias self of None \<Rightarrow> 0 | Some bt \<Rightarrow> elt bt [oo])"
    "\<forall>bs oo m. valid_index B bs \<longrightarrow>
           elt (l_cumulative_env_outputs l) (bs @ [oo, m]) = (\<Sum>i<in_features self. elt (l_individual l) (bs @ [oo, i, m]))"
    "\<forall>bs oo m. valid_index B bs \<longrightarrow> oo < out_features self \<longrightarrow> m < theta_modes_in self \<longrightarrow>
           elt (l_gated_env l) (bs @ [oo, m]) = elt (l_cumulative_env_outputs l) (bs @ [oo, m]) * elt (l_transformed_x l) (bs @ [oo])"
    "shape (l_param_quads l) = B @ [theta_modes_out self, 4, out_features self]"
    "\<forall>bs k q oo. valid_index B bs \<longrightarrow> k < theta_modes_out self \<longrightarrow> q < 4 \<longrightarrow> oo < out_features self \<longrightarrow>
           elt (l_param_quads l) (bs @ [k, q, oo])
             = (\<Sum>j<theta_modes_in self. elt (l_modulated_env l) (bs @ [oo, j])
                           * elt (emission self) [bdim (theta_feautures self) oo, j, k * 4 + q])
               * elt (emission_scale self) [oo, k * 4 + q]
               + elt (emission_bias self) [oo, k * 4 + q]"
proof -
  note d = layer_okD[OF ok]
  note s = forward_locals_SomeD[OF fl]
  from forward_stages[OF ok x c b]
  obtain ind ci eb en px tx co g me where e:
    "individual_sensetivity_weighted self components = Some ind"
    "cumulative_env_inputs ind = Some ci"
    "env_biased self components ci = Some eb"
    "norm_call (norm_env_input self) eb = Some en"
    "perceptual_x self x en = Some px"
    "linear px (weight self) (bias self) = Some tx"
    "cumulative_env_outputs ind = Some co"
    "gated_env co tx = Some g"
    "norm_call (norm_env_output self) g = Some me"
    and f:
    "shape ind = B @ [out_features self, in_features self, theta_modes_in self]"
    "shape ci = B @ [in_features self, theta_modes_in self]"
    "shape eb = B @ [in_features self, theta_modes_in self]"
    "shape en = B @ [in_features self, theta_modes_in self]"
    "shape px = B @ [in_features self]"
    "shape tx = B @ [out_features self]"
    "shape co = B @ [out_features self, theta_modes_in self]"
    "shape g = B @ [out_features self, theta_modes_in self]"
    "shape me = B @ [out_features self, theta_modes_in self]"
    "\<forall>bs oo i m. valid_index B bs \<longrightarrow> oo < out_features self \<longrightarrow> i < in_features self \<longrightarrow> m < theta_modes_in self \<longrightarrow>
           elt ind (bs @ [oo, i, m])
             = elt (individual_sensetivity self) [oo, i, 0] * elt components (bs @ [m, bdim db i])"
    "\<forall>bs i m. valid_index B bs \<longrightarrow>
           elt ci (bs @ [i, m]) = (\<Sum>oo<out_features self. elt ind (bs @ [oo, i, m]))"
    "\<forall>bs i m. valid_index B bs \<longrightarrow> i < in_features self \<longrightarrow> m < theta_modes_in self \<longrightarrow>
           elt eb (bs @ [i, m])
             = elt ci (bs @ [i, m]) * elt (env_sensetivity self) [i, m]
               + elt (env_bias self) [i, m]"
    "\<forall>bs i. valid_index B bs \<longrightarrow> i < in_features self \<longrightarrow>
           elt px (bs @ [i])
             = (\<Sum>m<theta_modes_in self. elt x (bs @ [i]) * elt en (bs @ [i, m])
                           * elt (perception self) [i, m, 0])
               + elt (perceptual_bias self) [i]"
    "\<forall>bs oo. valid_index B bs \<longrightarrow>
           elt tx (bs @ [oo])
             = (\<Sum>i<in_features self. elt px (bs @ [i]) * elt (weight self) [oo, i])
               + (case bias self of None \<Rightarrow> 0 | Some bt \<Rightarrow> elt bt [oo])"
    "\<forall>bs oo m. valid_index B bs \<longrightarrow>
           elt co (bs @ [oo, m]) = (\<Sum>i<in_features self. elt ind (bs @ [oo, i, m]))"
    "\<forall>bs oo m. valid_index B bs \<longrightarrow> oo < out_features self \<longrightarrow> m < theta_modes_in self \<longrightarrow>
           elt g (bs @ [oo, m]) = elt co (bs @ [oo, m]) * elt tx (bs @ [oo])"
    by (elim exE conjE) (rule that; assumption)
  have q1: "ind = l_individual l" using e(1) s(1) by simp
  have q2: "ci = l_cumulative_env_inputs l" using e(2) s(2) q1 by simp
  have q3: "eb = l_env_biased l" using e(3) s(3) q2 by simp
  have q4: "en = l_env_normalized l" using e(4) s(4) q3 by simp
  have q5: "px = l_perceptual_x l" using e(5) s(5) q4 by simp
  have q6: "tx = l_transformed_x l" using e(6) s(6) q5 by simp
  have q7: "co = l_cumulative_env_outputs l" using e(7) s(7) q1 by simp
  have q8: "g = l_gated_env l" using e(8) s(8) q7 q6 by simp
  have q9: "me = l_modulated_env l" using e(9) s(9) q8 by simp
  note f' = f[unfolded q1 q2 q3 q4 q5 q6 q7 q8 q9]
  have mes: "shape (l_modulated_env l) = B @ [out_features self, theta_modes_in self]" by (rule f'(9))
  have pos: "0 < prod_list B \<and> 0 < out_features self"
  proof (rule ccontr)
    assume "\<not> ?thesis"
    then have "prod_list B = 0 \<or> out_features self = 0 \<or> theta_modes_out self = 0" by auto
    from param_quads_fails[OF mes d(13) d(5) d(14) d(15) this] s(10)
    show False by simp
  qed
  then have p1: "0 < prod_list B" and p2: "0 < out_features self" by simp_all
  from param_quads_spec[OF mes d(13) d(5) d(14) d(15) refl p1 p2 d(3)]
  have pq: "shape (l_param_quads l) = B @ [theta_modes_out self, 4, out_features self]"
    "\<forall>bs k q oo. valid_index B bs \<longrightarrow> k < theta_modes_out self \<longrightarrow> q < 4 \<longrightarrow> oo < out_features self \<longrightarrow>
           elt (l_param_quads l) (bs @ [k, q, oo])
             = (\<Sum>j<theta_modes_in self. elt (l_modulated_env l) (bs @ [oo, j])
                           * elt (emission self) [bdim (theta_feautures self) oo, j, k * 4 + q])
               * elt (emission_scale self) [oo, k * 4 + q]
               + elt (emission_bias self) [oo, k * 4 + q]"
    unfolding s(10) by auto
  show "0 < prod_list B" "0 < out_features self"
    "shape (l_individual l) = B @ [out_features self, in_features self, theta_modes_in self]"
    "shape (l_cumulative_env_inputs l) = B @ [in_features self, theta_modes_in self]"
    "shape (l_env_biased l) = B @ [in_features self, theta_modes_in self]"
    "shape (l_env_normalized l) = B @ [in_features self, theta_modes_in self]"
    "shape (l_perceptual_x l) = B @ [in_features self]"
    "shape (l_transformed_x l) = B @ [out_features self]"
    "shape (l_cumulative_env_outputs l) = B @ [out_features self, theta_modes_in self]"
    "shape (l_gated_env l) = B @ [out_features self, theta_modes_in self]"
    "shape (l_modulated_env l) = B @ [out_features self, theta_modes_in self]"
    "\<forall>bs oo i m. valid_index B bs \<longrightarrow> oo < out_features self \<longrightarrow> i < in_features self \<longrightarrow> m < theta_modes_in self \<longrightarrow>
           elt (l_individual l) (bs @ [oo, i, m])
             = elt (individual_sensetivity self) [oo, i, 0] * elt components (bs @ [m, bdim db i])"
    "\<forall>bs i m. valid_index B bs \<longrightarrow>
           elt (l_cumulative_env_inputs l) (bs @ [i, m]) = (\<Sum>oo<out_features self. elt (l_individual l) (bs @ [oo, i, m]))"
    "\<forall>bs i m. valid_index B bs \<longrightarrow> i < in_features self \<longrightarrow> m < theta_modes_in self \<longrightarrow>
           elt (l_env_biased l) (bs @ [i, m])
             = elt (l_cumulative_env_inputs l) (bs @ [i, m]) * elt (env_sensetivity self) [i, m]
               + elt (env_bias self) [i, m]"
    "\<forall>bs i. valid_index B bs \<longrightarrow> i < in_features self \<longrightarrow>
           elt (l_perceptual_x l) (bs @ [i])
             = (\<Sum>m<theta_modes_in self. elt x (bs @ [i]) * elt (l_env_normalized l) (bs @ [i, m])
                           * elt (perception self) [i, m, 0])
               + elt (perceptual_bias self) [i]"
    "\<forall>bs oo. valid_index B bs \<longrightarrow>
           elt (l_transformed_x l) (bs @ [oo])
             = (\<Sum>i<in_features self. elt (l_perceptual_x l) (bs @ [i]) * elt (weight self) [oo, i])
               + (case bias self of None \<Rightarrow> 0 | Some bt \<Rightarrow> elt bt [oo])"
    "\<forall>bs oo m. valid_index B bs \<longrightarrow>
           elt (l_cumulative_env_outputs l) (bs @ [oo, m]) = (\<Sum>i<in_features self. elt (l_individual l) (bs @ [oo, i, m]))"
    "\<forall>bs oo m. valid_index B bs \<longrightarrow> oo < out_features self \<longrightarrow> m < theta_modes_in self \<longrightarrow>
           elt (l_gated_env l) (bs @ [oo, m]) = elt (l_cumulative_env_outputs l) (bs @ [oo, m]) * elt (l_transformed_x l) (bs @ [oo])"
    "shape (l_param_quads l) = B @ [theta_modes_out self, 4, out_features self]"
    "\<forall>bs k q oo. valid_index B bs \<longrightarrow> k < theta_modes_out self \<longrightarrow> q < 4 \<longrightarrow> oo < out_features self \<longrightarrow>
           elt (l_param_quads l) (bs @ [k, q, oo])
             = (\<Sum>j<theta_modes_in self. elt (l_modulated_env l) (bs @ [oo, j])
                           * elt (emission self) [bdim (theta_feautures self) oo, j, k * 4 + q])
               * elt (emission_scale self) [oo, k * 4 + q]
               + elt (emission_bias self) [oo, k * 4 + q]"
    by (rule p1 p2 f' pq)+
qed

lemma forward_locals_values:
  assumes ok: "layer_ok self"
    and x: "shape x = B @ [in_features self]"
    and c: "shape components = B @ [theta_modes_in self, db]"
    and b: "db = in_features self \<or> db = 1"
    and fl: "forward_locals self x components = Some l"
  shows "0 < prod_list B \<and> 0 < out_features self
     \<and> (shape (l_individual l) = B @ [out_features self, in_features self, theta_modes_in self])
     \<and> (shape (l_cumulative_env_inputs l) = B @ [in_features self, theta_modes_in self])
     \<and> (shape (l_env_biased l) = B @ [in_features self, theta_modes_in self])
     \<and> (shape (l_env_normalized l) = B @ [in_features self, theta_modes_in self])
     \<and> (shape (l_perceptual_x l) = B @ [in_features self])
     \<and> (shape (l_transformed_x l) = B @ [out_features self])
     \<and> (shape (l_cumulative_env_outputs l) = B @ [out_features self, theta_modes_in self])
     \<and> (shape (l_gated_env l) = B @ [out_features self, theta_modes_in self])
     \<and> (shape (l_modulated_env l) = B @ [out_features self, theta_modes_in self])
     \<and> (\<forall>bs oo i m. valid_index B bs \<longrightarrow> oo < out_features self \<longrightarrow> i < in_features self \<longrightarrow> m < theta_modes_in self \<longrightarrow>
           elt (l_individual l) (bs @ [oo, i, m])
             = elt (individual_sensetivity self) [oo, i, 0] * elt components (bs @ [m, bdim db i]))
     \<and> (\<forall>bs i m. valid_index B bs \<longrightarrow>
           elt (l_cumulative_env_inputs l) (bs @ [i, m]) = (\<Sum>oo<out_features self. elt (l_individual l) (bs @ [oo, i, m])))
     \<and> (\<forall>bs i m. valid_index B bs \<longrightarrow> i < in_features self \<longrightarrow> m < theta_modes_in self \<longrightarrow>
           elt (l_env_biased l) (bs @ [i, m])
             = elt (l_cumulative_env_inputs l) (bs @ [i, m]) * elt (env_sensetivity self) [i, m]
               + elt (env_bias self) [i, m])
     \<and> (\<forall>bs i. valid_index B bs \<longrightarrow> i < in_features self \<longrightarrow>
           elt (l_perceptual_x l) (bs @ [i])
             = (\<Sum>m<theta_modes_in self. elt x (bs @ [i]) * elt (l_env_normalized l) (bs @ [i, m])
                           * elt (perception self) [i, m, 0])
               + elt (perceptual_bias self) [i])
     \<and> (\<forall>bs oo. valid_index B bs \<longrightarrow>
           elt (l_transformed_x l) (bs @ [oo])
             = (\<Sum>i<in_features self. elt (l_perceptual_x l) (bs @ [i]) * elt (weight self) [oo, i])
               + (case bias self of None \<Rightarrow> 0 | Some bt \<Rightarrow> elt bt [oo]))
     \<and> (\<forall>bs oo m. valid_index B bs \<longrightarrow>
           elt (l_cumulative_env_outputs l) (bs @ [oo, m]) = (\<Sum>i<in_features self. elt (l_individual l) (bs @ [oo, i, m])))
     \<and> (\<forall>bs oo m. valid_index B bs \<longrightarrow> oo < out_features self \<longrightarrow> m < theta_modes_in self \<longrightarrow>
           elt (l_gated_env l) (bs @ [oo, m]) = elt (l_cumulative_env_outputs l) (bs @ [oo, m]) * elt (l_transformed_x l) (bs @ [oo]))
     \<and> (shape (l_param_quads l) = B @ [theta_modes_out self, 4, out_features self])
     \<and> (\<forall>bs k q oo. valid_index B bs \<longrightarrow> k < theta_modes_out self \<longrightarrow> q < 4 \<longrightarrow> oo < out_features self \<longrightarrow>
           elt (l_param_quads l) (bs @ [k, q, oo])
             = (\<Sum>j<theta_modes_in self. elt (l_modulated_env l) (bs @ [oo, j])
                           * elt (emission self) [bdim (theta_feautures self) oo, j, k * 4 + q])
               * elt (emission_scale self) [oo, k * 4 + q]
               + elt (emission_bias self) [oo, k * 4 + q])"
  by (intro conjI) (rule forward_locals_valuesD[OF assms])+

lemma forward_locals_conformant:
  assumes ok: "layer_ok self"
    and x: "shape x = B @ [in_features self]"
    and c: "shape components = B @ [theta_modes_in self, db]"
    and b: "db = in_features self \<or> db = 1"
    and pos: "0 < prod_list B" "0 < out_features self"
  shows "\<exists>l. forward_locals self x components = Some l"
proof -
  note d = layer_okD[OF ok]
  from forward_stages[OF ok x c b]
  obtain ind ci eb en px tx co g me where e:
    "individual_sensetivity_weighted self components = Some ind"
    "cumulative_env_inputs ind = Some ci"
    "env_biased self components ci = Some eb"
    "norm_call (norm_env_input self) eb = Some en"
    "perceptual_x self x en = Some px"
    "linear px (weight self) (bias self) = Some tx"
    "cumulative_env_outputs ind = Some co"
    "gated_env co tx = Some g"
    "norm_call (norm_env_output self) g = Some me"
    and f:
    "shape ind = B @ [out_features self, in_features self, theta_modes_in self]"
    "shape ci = B @ [in_features self, theta_modes_in self]"
    "shape eb = B @ [in_features self, theta_modes_in self]"
    "shape en = B @ [in_features self, theta_modes_in self]"
    "shape px = B @ [in_features self]"
    "shape tx = B @ [out_features self]"
    "shape co = B @ [out_features self, theta_modes_in self]"
    "shape g = B @ [out_features self, theta_modes_in self]"
    "shape me = B @ [out_features self, theta_modes_in self]"
    "\<forall>bs oo i m. valid_index B bs \<longrightarrow> oo < out_features self \<longrightarrow> i < in_features self \<longrightarrow> m < theta_modes_in self \<longrightarrow>
           elt ind (bs @ [oo, i, m])
             = elt (individual_sensetivity self) [oo, i, 0] * elt components (bs @ [m, bdim db i])"
    "\<forall>bs i m. valid_index B bs \<longrightarrow>
           elt ci (bs @ [i, m]) = (\<Sum>oo<out_features self. elt ind (bs @ [oo, i, m]))"
    "\<forall>bs i m. valid_index B bs \<longrightarrow> i < in_features self \<longrightarrow> m < theta_modes_in self \<longrightarrow>
           elt eb (bs @ [i, m])
             = elt ci (bs @ [i, m]) * elt (env_sensetivity self) [i, m]
               + elt (env_bias self) [i, m]"
    "\<forall>bs i. valid_index B bs \<longrightarrow> i < in_features self \<longrightarrow>
           elt px (bs @ [i])
             = (\<Sum>m<theta_modes_in self. elt x (bs @ [i]) * elt en (bs @ [i, m])
                           * elt (perception self) [i, m, 0])
               + elt (perceptual_bias self) [i]"
    "\<forall>bs oo. valid_index B bs \<longrightarrow>
           elt tx (bs @ [oo])
             = (\<Sum>i<in_features self. elt px (bs @ [i]) * elt (weight self) [oo, i])
               + (case bias self of None \<Rightarrow> 0 | Some bt \<Rightarrow> elt bt [oo])"
    "\<forall>bs oo m. valid_index B bs \<longrightarrow>
           elt co (bs @ [oo, m]) = (\<Sum>i<in_features self. elt ind (bs @ [oo, i, m]))"
    "\<forall>bs oo m. valid_index B bs \<longrightarrow> oo < out_features self \<longrightarrow> m < theta_modes_in self \<longrightarrow>
           elt g (bs @ [oo, m]) = elt co (bs @ [oo, m]) * elt tx (bs @ [oo])"
    by (elim exE conjE) (rule that; assumption)
  obtain pq where pq: "param_quads self me = Some pq"
    using param_quads_spec[OF f(9) d(13) d(5) d(14) d(15) refl pos d(3)] by blast
  show ?thesis
    unfolding forward_locals_def using e pq by simp
qed

lemma forward_locals_empty:
  assumes ok: "layer_ok self"
    and x: "shape x = B @ [in_features self]"
    and c: "shape components = B @ [theta_modes_in self, db]"
    and b: "db = in_features self \<or> db = 1"
    and z: "prod_list B = 0 \<or> out_features self = 0"
  shows "forward_locals self x components = None"
proof (cases "forward_locals self x components")
  case None
  then show ?thesis .
next
  case (Some l)
  from forward_locals_values[OF ok x c b Some] z show ?thesis by simp
qed

section \<open>Construction\<close>


lemma example_layer_ok: "layer_ok example_layer"
  by (simp add: layer_ok_def example_layer_def iota_def const_def ones_def zeros_def)

lemma norm_ok_False: "norm_ok False n ns \<Longrightarrow> n = Identity"
  by (cases n) simp_all

lemma forward_conformant:
  assumes ok: "layer_ok self"
    and x: "shape x = B @ [in_features self]"
    and c: "shape components = B @ [theta_modes_in self, db]"
    and b: "db = in_features self \<or> db = 1"
    and pos: "0 < prod_list B" "0 < out_features self"
  shows "\<exists>l. forward_locals self x components = Some l
           \<and> forward self x components = Some (l_transformed_x l, l_param_quads l)"
  using forward_locals_conformant[OF ok x c b pos] by (auto simp: forward_def)

lemma forward_empty:
  assumes ok: "layer_ok self"
    and x: "shape x = B @ [in_features self]"
    and c: "shape components = B @ [theta_modes_in self, db]"
    and b: "db = in_features self \<or> db = 1"
    and z: "prod_list B = 0 \<or> out_features self = 0"
  shows "forward self x components = None"
  using forward_locals_empty[OF ok x c b z] by (simp add: forward_def)

lemma example_shapes:
  "shape example_x = [] @ [in_features example_layer]"
  "shape example_components = [] @ [theta_modes_in example_layer, in_features example_layer]"
  by (simp_all add: example_x_def example_components_def example_layer_def iota_def)

lemma example_init: "init 2 3 2 1 False False False True example_draws = Some example_layer"
  by (simp add: init_def example_draws_def example_layer_def iota_def const_def ones_def
      zeros_def)

subsection \<open>The statements of the body and the layer object\<close>

lemma bnd_tensor_op:
  "bnd (tensor_op r) f s = (case r of None \<Rightarrow> (None, s) | Some v \<Rightarrow> f v s)"
  by (simp add: bnd_def tensor_op_def split: option.split)

lemma bnd_getattr: "bnd (getattr g) f s = f (g s) s"
  by (simp add: bnd_def getattr_def)

lemma bnd_call_norm:
  "bnd (call_norm g t) f s = (case norm_call (g s) t of None \<Rightarrow> (None, s) | Some v \<Rightarrow> f v s)"
  by (simp add: bnd_def call_norm_def tensor_op_def getattr_def split: option.split)

lemma bnd_super_forward:
  "bnd (super_forward t) f s
     = (case linear t (weight s) (bias s) of None \<Rightarrow> (None, s) | Some v \<Rightarrow> f v s)"
  by (simp add: bnd_def super_forward_def tensor_op_def getattr_def split: option.split)

lemma forward_body_forward:
  "forward_body x components self = (forward self x components, self)"
  unfolding forward_body_def forward_def forward_locals_def individual_sensetivity_weighted_def
    components_per_input_def cumulative_env_inputs_def env_biased_def perceptual_x_def
    cumulative_env_outputs_def gated_env_def param_quads_def Let_def
  by (simp add: bnd_tensor_op bnd_getattr bnd_call_norm bnd_super_forward ret_def
      split: option.split)

lemma setattr_writes:
  "snd (setattr perceptual_bias_update (const [2] 1) example_layer) \<noteq> example_layer"
proof
  assume "snd (setattr perceptual_bias_update (const [2] 1) example_layer) = example_layer"
  then have "elt (perceptual_bias (snd (setattr perceptual_bias_update (const [2] 1) example_layer))) []
     = elt (perceptual_bias example_layer) []" by simp
  then show False by (simp add: setattr_def example_layer_def const_def)
qed

subsection \<open>The run on the example inputs\<close>

lemma valid_Nil: "valid_index [] []"
  by (simp add: valid_index_def)

lemma example_emission_ok:
  "shape e = [1, 2, 4] \<Longrightarrow> layer_ok (example_layer\<lparr>emission := e\<rparr>)"
  by (simp add: layer_ok_def example_layer_def iota_def const_def ones_def zeros_def)

lemma example_run:
  assumes e: "shape e = [1, 2, 4]"
  shows "\<exists>l. forward_locals (example_layer\<lparr>emission := e\<rparr>) example_x example_components
             = Some l
     \<and> elt (l_cumulative_env_inputs l) [0, 0] = 9
     \<and> elt (l_cumulative_env_inputs l) [0, 1] = 27
     \<and> elt (l_cumulative_env_inputs l) [1, 0] = 24
     \<and> elt (l_cumulative_env_inputs l) [1, 1] = 48
     \<and> elt (l_perceptual_x l) [0] = 74
     \<and> elt (l_perceptual_x l) [1] = 292
     \<and> elt (l_transformed_x l) [0] = 659
     \<and> elt (l_transformed_x l) [1] = 1391
     \<and> elt (l_cumulative_env_outputs l) [0, 0] = 5
     \<and> elt (l_cumulative_env_outputs l) [0, 1] = 11
     \<and> elt (l_cumulative_env_outputs l) [1, 0] = 11
     \<and> elt (l_cumulative_env_outputs l) [1, 1] = 25
     \<and> elt (l_modulated_env l) [0, 0] = 3295
     \<and> elt (l_modulated_env l) [0, 1] = 7249
     \<and> elt (l_modulated_env l) [1, 0] = 15301
     \<and> elt (l_modulated_env l) [1, 1] = 34775
     \<and> elt (l_param_quads l) [0, 0, 0] = 3295 * elt e [0, 0, 0] + 7249 * elt e [0, 1, 0]
     \<and> elt (l_param_quads l) [0, 0, 1] = 15301 * elt e [0, 0, 0] + 34775 * elt e [0, 1, 0]"
proof -
  let ?L = "example_layer\<lparr>emission := e\<rparr>"
  have ok: "layer_ok ?L" by (rule example_emission_ok[OF e])
  have x: "shape example_x = [] @ [in_features ?L]"
    and c: "shape example_components = [] @ [theta_modes_in ?L, in_features ?L]"
    and b: "in_features ?L = in_features ?L \<or> in_features ?L = 1"
    and pos: "0 < prod_list ([]::nat list)" "0 < out_features ?L"
    by (simp_all add: example_x_def example_components_def example_layer_def iota_def)
  obtain l where l: "forward_locals ?L example_x example_components = Some l"
    using forward_locals_conformant[OF ok x c b pos] by blast
  note v = forward_locals_valuesD[OF ok x c b l, unfolded append_Nil]
  note s = forward_locals_SomeD[OF l]
  have sz: "in_features ?L = 2" "out_features ?L = 3" "theta_modes_in ?L = 2"
    "theta_modes_out ?L = 1" "theta_feautures ?L = 1"
    by (simp_all add: example_layer_def)
  have nrm: "l_env_normalized l = l_env_biased l" "l_modulated_env l = l_gated_env l"
    using s(4) s(9) by (simp_all add: example_layer_def)
  have ind: "elt (l_individual l) [oo, i, m]
       = (2 * real oo + real i + 1) * (2 * real m + real i + 1)"
    if "oo < 3" "i < 2" "m < 2" for oo i m
    using v(12)[rule_format, OF valid_Nil, of oo i m] that
    by (simp add: example_layer_def example_components_def iota_def bdim_def algebra_simps)
  have ci: "elt (l_cumulative_env_inputs l) [i, m] = (2 * real m + real i + 1) * (3 * real i + 9)"
    if "i < 2" "m < 2" for i m
    using v(13)[rule_format, OF valid_Nil, of i m] that
    by (simp add: sz ind lessThan_nat_numeral lessThan_Suc algebra_simps)
  have en: "elt (l_env_normalized l) [i, m] = (2 * real m + real i + 1) * (3 * real i + 9) * 2 + 1"
    if "i < 2" "m < 2" for i m
    using v(14)[rule_format, OF valid_Nil, of i m] that
    by (simp add: sz nrm ci example_layer_def const_def)
  have px: "elt (l_perceptual_x l) [i]
      = (real i + 1) * (((real i + 1) * (3 * real i + 9) * 2 + 1)
                       + ((real i + 3) * (3 * real i + 9) * 2 + 1))"
    if "i < 2" for i
    using v(15)[rule_format, OF valid_Nil, of i] that
    by (simp add: sz en lessThan_nat_numeral lessThan_Suc example_layer_def const_def
        example_x_def iota_def algebra_simps)
  have px0: "elt (l_perceptual_x l) [0] = 74" using px[of 0] by simp
  have px1: "elt (l_perceptual_x l) [1] = 292" using px[of 1] by simp
  have tx: "elt (l_transformed_x l) [oo] = 74 * (2 * real oo + 1) + 292 * (2 * real oo + 2) + 1"
    if "oo < 3" for oo
    using v(16)[rule_format, OF valid_Nil, of oo] that px0 px1
    by (simp add: sz lessThan_nat_numeral lessThan_Suc example_layer_def const_def iota_def)
  have co: "elt (l_cumulative_env_outputs l) [oo, m]
      = (2 * real oo + 1) * (2 * real m + 1) + (2 * real oo + 2) * (2 * real m + 2)"
    if "oo < 3" "m < 2" for oo m
    using v(17)[rule_format, OF valid_Nil, of oo m] that
    by (simp add: sz ind lessThan_nat_numeral lessThan_Suc algebra_simps)
  have me: "elt (l_modulated_env l) [oo, m]
      = ((2 * real oo + 1) * (2 * real m + 1) + (2 * real oo + 2) * (2 * real m + 2))
        * (74 * (2 * real oo + 1) + 292 * (2 * real oo + 2) + 1)"
    if "oo < 3" "m < 2" for oo m
    using v(18)[rule_format, OF valid_Nil, of oo m] that
    by (simp add: sz nrm co tx)
  have pq: "elt (l_param_quads l) [0, 0, oo]
      = elt (l_modulated_env l) [oo, 0] * elt e [0, 0, 0]
        + elt (l_modulated_env l) [oo, 1] * elt e [0, 1, 0]"
    if "oo < 3" for oo
    using v(20)[rule_format, OF valid_Nil, of 0 0 oo] that
    by (simp add: sz lessThan_nat_numeral lessThan_Suc example_layer_def ones_def zeros_def
        bdim_def)
  show ?thesis
    apply (rule exI[of _ l])
    apply (intro conjI)
    subgoal by (rule l)
    subgoal using ci[of 0 0] by simp
    subgoal using ci[of 0 1] by simp
    subgoal using ci[of 1 0] by simp
    subgoal using ci[of 1 1] by simp
    subgoal by (rule px0)
    subgoal by (rule px1)
    subgoal using tx[of 0] by simp
    subgoal using tx[of 1] by simp
    subgoal using co[of 0 0] by simp
    subgoal using co[of 0 1] by simp
    subgoal using co[of 1 0] by simp
    subgoal using co[of 1 1] by simp
    subgoal using me[of 0 0] by simp
    subgoal using me[of 0 1] by simp
    subgoal using me[of 1 0] by simp
    subgoal using me[of 1 1] by simp
    subgoal using pq[of 0] me[of 0 0] me[of 0 1] by simp
    subgoal using pq[of 1] me[of 1 0] me[of 1 1] by simp
    done
qed

lemma example_run_shared:
  "\<exists>l. forward_locals example_layer example_x example_components = Some l
     \<and> elt (l_cumulative_env_inputs l) [0, 1] = 27
     \<and> elt (l_cumulative_env_outputs l) [1, 0] = 11
     \<and> elt (l_perceptual_x l) [1] = 292
     \<and> elt (l_transformed_x l) [0] = 659
     \<and> elt (l_transformed_x l) [1] = 1391
     \<and> elt (l_modulated_env l) [1, 0] = 15301"
proof -
  have e: "example_layer\<lparr>emission := emission example_layer\<rparr> = example_layer" by simp
  have s: "shape (emission example_layer) = [1, 2, 4]"
    by (simp add: example_layer_def iota_def)
  show ?thesis using example_run[OF s] unfolding e by blast
qed


subsection \<open>The emission parameters\<close>

lemma bind_shape_cong:
  assumes "map_option shape a = map_option shape a'"
    and "\<And>u u'. a = Some u \<Longrightarrow> a' = Some u' \<Longrightarrow> shape u = shape u'
           \<Longrightarrow> map_option shape (f u) = map_option shape (f' u')"
  shows "map_option shape (a \<bind> f) = map_option shape (a' \<bind> f')"
  using assms by (cases a; cases a') auto

lemma einsum_ij_ijk_shape_cong:
  "shape a = shape a' \<Longrightarrow> shape b = shape b'
   \<Longrightarrow> map_option shape (einsum_ij_ijk a b) = map_option shape (einsum_ij_ijk a' b')"
  by (auto simp: einsum_ij_ijk_def Let_def split: Option.bind_split)

lemma einsum_ij_ij_shape_cong:
  "shape a = shape a' \<Longrightarrow> shape b = shape b'
   \<Longrightarrow> map_option shape (einsum_ij_ij a b) = map_option shape (einsum_ij_ij a' b')"
  by (auto simp: einsum_ij_ij_def Let_def split: Option.bind_split)

lemma reshape_shape: "map_option shape (reshape t tgt) = infer_size tgt (prod_list (shape t))"
  by (auto simp: reshape_def numel_def split: Option.bind_split)

lemma tadd_shape: "map_option shape (tadd a b) = broadcast_shapes (shape a) (shape b)"
  by (auto simp: tadd_def binop_def split: Option.bind_split)

lemma permute_shape_cong:
  "shape a = shape a' \<Longrightarrow> map_option shape (permute a dims) = map_option shape (permute a' dims)"
  by (auto simp: permute_def Let_def split: Option.bind_split)

text \<open>Whether the emission steps return, and the shape of what they return, depend on
  the shapes of the emission parameters only.\<close>

lemma param_quads_shape_cong:
  assumes "shape (emission s1) = shape (emission s2)"
    and "shape (emission_scale s1) = shape (emission_scale s2)"
    and "shape (emission_bias s1) = shape (emission_bias s2)"
    and "theta_modes_out s1 = theta_modes_out s2"
  shows "map_option shape (param_quads s1 m) = map_option shape (param_quads s2 m)"
  unfolding param_quads_def
  apply (rule bind_shape_cong)
   apply (rule einsum_ij_ijk_shape_cong; simp add: assms)
  apply (rule bind_shape_cong)
   apply (rule einsum_ij_ij_shape_cong; simp add: assms)
  apply (rule bind_shape_cong)
   apply (simp add: reshape_shape assms)
  apply (rule bind_shape_cong)
   apply (simp add: tadd_shape)
  apply (rule bind_shape_cong)
   apply (simp add: reshape_shape assms)
  apply (rule permute_shape_cong[THEN trans])
   apply assumption
  apply simp
  done

lemma param_quads_None_cong:
  assumes "shape (emission s1) = shape (emission s2)"
    and "shape (emission_scale s1) = shape (emission_scale s2)"
    and "shape (emission_bias s1) = shape (emission_bias s2)"
    and "theta_modes_out s1 = theta_modes_out s2"
  shows "(param_quads s1 m = None) = (param_quads s2 m = None)"
  using param_quads_shape_cong[OF assms, of m]
  by (cases "param_quads s1 m"; cases "param_quads s2 m") simp_all

lemma with_emission_stages:
  "individual_sensetivity_weighted (with_emission self e s b) c
     = individual_sensetivity_weighted self c"
  "env_biased (with_emission self e s b) c ci = env_biased self c ci"
  "norm_env_input (with_emission self e s b) = norm_env_input self"
  "perceptual_x (with_emission self e s b) x en = perceptual_x self x en"
  "weight (with_emission self e s b) = weight self"
  "bias (with_emission self e s b) = bias self"
  "norm_env_output (with_emission self e s b) = norm_env_output self"
  by (simp_all add: with_emission_def individual_sensetivity_weighted_def env_biased_def
      perceptual_x_def)

subsection \<open>Replacing the emission weights\<close>






subsection \<open>A layer without individual sensitivity\<close>








section \<open>The claims\<close>

text \<open>
  C1 as the specification states it: for every \<open>x\<close> of shape \<open>[*B, in_features]\<close> and
  \<open>components\<close> of shape \<open>[*B, modes_in, in_features]\<close>, \<open>forward\<close> returns \<open>transformed_x\<close>
  of shape \<open>[*B, out_features]\<close> and \<open>param_quads\<close> of shape \<open>[*B, modes_out, 4, F]\<close> with
  \<open>F = 1\<close> when \<open>theta_full_features\<close> is false.  The example layer is built with
  \<open>theta_full_features = False\<close> and \<open>out_features = 3\<close>; its \<open>param_quads\<close> has the last axis
  3, not 1: the contraction with the emission broadcasts the shared weights over the
  output neurons.  And for an empty batch the call does not return at all.
\<close>

theorem C1_counterexample:
  "init 2 3 2 1 False False False True example_draws = Some example_layer
   \<and> map_option (shape \<circ> snd) (forward example_layer example_x example_components)
       = Some [1, 4, 3]
   \<and> forward example_layer (zeros [0, 2]) (zeros [0, 2, 2]) = None"
proof -
  have pos: "0 < prod_list ([]::nat list)" "0 < out_features example_layer"
    by (simp_all add: example_layer_def)
  have b: "in_features example_layer = in_features example_layer \<or> in_features example_layer = 1"
    by simp
  obtain l where l: "forward_locals example_layer example_x example_components = Some l"
    using forward_locals_conformant[OF example_layer_ok example_shapes b pos] by blast
  have "shape (l_param_quads l) = [1, 4, 3]"
    using forward_locals_values[OF example_layer_ok example_shapes b l]
    by (simp add: example_layer_def)
  then have 1: "map_option (shape \<circ> snd) (forward example_layer example_x example_components)
       = Some [1, 4, 3]"
    by (simp add: forward_def l)
  have 2: "forward example_layer (zeros [0, 2]) (zeros [0, 2, 2]) = None"
    by (rule forward_empty[OF example_layer_ok, where B = "[0]" and db = 2])
       (simp_all add: zeros_def example_layer_def)
  show ?thesis using example_init 1 2 by simp
qed

text \<open>
  C1, amended: for \<open>x\<close> of shape \<open>[*B, in_features]\<close> and \<open>components\<close> of shape
  \<open>[*B, modes_in, in_features]\<close>, with a batch that is not empty and at least one output
  neuron, \<open>forward\<close> returns \<open>transformed_x\<close> of shape \<open>[*B, out_features]\<close> and \<open>param_quads\<close>
  of shape \<open>[*B, modes_out, 4, out_features]\<close>, for either setting of
  \<open>theta_full_features\<close> (the emission has then \<open>out_features\<close> or 1 leading rows).
\<close>

theorem C1_forward_shapes:
  assumes "layer_ok self"
    and "shape x = B @ [in_features self]"
    and "shape components = B @ [theta_modes_in self, in_features self]"
    and "0 < prod_list B"
    and "0 < out_features self"
  shows "\<exists>transformed_x pq.
           forward self x components = Some (transformed_x, pq)
         \<and> shape transformed_x = B @ [out_features self]
         \<and> shape pq = B @ [theta_modes_out self, 4, out_features self]"
proof -
  have b: "in_features self = in_features self \<or> in_features self = 1" by simp
  obtain l where l: "forward_locals self x components = Some l"
    and f: "forward self x components = Some (l_transformed_x l, l_param_quads l)"
    using forward_conformant[OF assms(1,2,3) b assms(4,5)] by blast
  have "shape (l_transformed_x l) = B @ [out_features self]"
    and "shape (l_param_quads l) = B @ [theta_modes_out self, 4, out_features self]"
    using forward_locals_values[OF assms(1,2,3) b l] by simp_all
  then show ?thesis using f by simp
qed

theorem C1_witness:
  "layer_ok example_layer
   \<and> shape example_x = [2]
   \<and> shape example_components = [2, 2]
   \<and> 0 < prod_list ([]::nat list)
   \<and> 0 < out_features example_layer
   \<and> (\<exists>transformed_x pq.
           forward example_layer example_x example_components = Some (transformed_x, pq)
         \<and> shape transformed_x = [3]
         \<and> shape pq = [1, 4, 3])"
  using C1_forward_shapes[OF example_layer_ok, of example_x "[]" example_components]
    example_layer_ok
  by (simp add: example_x_def example_components_def example_layer_def iota_def)

text \<open>
  C2 as the specification states it: step 1 gives \<open>components\<close> the shape
  \<open>[..., 1, modes_in, in_features]\<close>.  For \<open>components\<close> of shape \<open>[3, 2]\<close>, that is
  \<open>modes_in = 3\<close> and \<open>in_features = 2\<close>, the rearranged tensor has the shape \<open>[1, 2, 3]\<close>:
  the permutation puts the input-neuron axis second-to-last and the mode axis last.
\<close>

theorem C2_counterexample:
  "map_option shape (components_per_input (iota [3, 2])) = Some [1, 2, 3]"
  using components_per_input_spec[of "iota [3, 2]" "[]" 3 2]
  by (auto simp: iota_def)

text \<open>
  C2, amended: step 1 swaps the two trailing axes of \<open>components\<close> and inserts a singleton
  output-neuron axis, giving the shape \<open>[..., 1, in_features, modes_in]\<close>, with the
  \<open>(0, i, m)\<close> entry equal to \<open>components[..., m, i]\<close>; the broadcast product with
  \<open>individual_sensetivity\<close> (shape \<open>[out, in, 1]\<close>) has the shape
  \<open>[..., out, in, modes_in]\<close> and its \<open>(o, i, m)\<close> entry is
  \<open>individual_sensetivity[o, i, 0] * components[..., m, i]\<close>.
\<close>

theorem C2_individual_weighting:
  assumes "layer_ok self"
    and "shape components = B @ [theta_modes_in self, in_features self]"
  shows "\<exists>cpi ind.
           components_per_input components = Some cpi
         \<and> shape cpi = B @ [1, in_features self, theta_modes_in self]
         \<and> (\<forall>bs i m. valid_index B bs \<longrightarrow>
               elt cpi (bs @ [0, i, m]) = elt components (bs @ [m, i]))
         \<and> individual_sensetivity_weighted self components = Some ind
         \<and> shape ind = B @ [out_features self, in_features self, theta_modes_in self]
         \<and> (\<forall>bs oo i m. valid_index B bs \<longrightarrow> oo < out_features self
               \<longrightarrow> i < in_features self \<longrightarrow> m < theta_modes_in self \<longrightarrow>
               elt ind (bs @ [oo, i, m])
                 = elt (individual_sensetivity self) [oo, i, 0] * elt components (bs @ [m, i]))
         \<and> (\<forall>x l. forward_locals self x components = Some l \<longrightarrow> l_individual l = ind)"
proof -
  note d = layer_okD[OF assms(1)]
  obtain cpi where 1: "components_per_input components = Some cpi"
    and 2: "shape cpi = B @ [1, in_features self, theta_modes_in self]"
    and 3: "\<And>bs z i m. length bs = length B \<Longrightarrow>
                elt cpi (bs @ [z, i, m]) = elt components (bs @ [m, i])"
    using components_per_input_spec[OF assms(2)] by blast
  obtain ind where 4: "individual_sensetivity_weighted self components = Some ind"
    and 5: "shape ind = B @ [out_features self, in_features self, theta_modes_in self]"
    and 6: "\<And>bs oo i m. valid_index B bs \<Longrightarrow> oo < out_features self
               \<Longrightarrow> i < in_features self \<Longrightarrow> m < theta_modes_in self \<Longrightarrow>
               elt ind (bs @ [oo, i, m])
                 = elt (individual_sensetivity self) [oo, i, 0] * elt components (bs @ [m, i])"
    using individual_spec[OF d(6) assms(2)] by blast
  have c3: "\<forall>bs i m. valid_index B bs \<longrightarrow>
               elt cpi (bs @ [0, i, m]) = elt components (bs @ [m, i])"
    using 3 valid_index_length by simp
  have 7: "\<forall>x l. forward_locals self x components = Some l \<longrightarrow> l_individual l = ind"
    using forward_locals_SomeD(1) 4 by fastforce
  show ?thesis
    apply (rule exI[of _ cpi], rule exI[of _ ind])
    apply (intro conjI)
          apply (rule 1 2 c3 4 5 7)+
    subgoal using 6 by blast
    subgoal by (rule 7)
    done
qed

theorem C2_witness:
  "layer_ok example_layer
   \<and> shape example_components = [2, 2]
   \<and> (\<exists>cpi ind.
           components_per_input example_components = Some cpi
         \<and> shape cpi = [1, 2, 2]
         \<and> elt cpi [0, 0, 1] = elt example_components [1, 0]
         \<and> individual_sensetivity_weighted example_layer example_components = Some ind
         \<and> shape ind = [3, 2, 2]
         \<and> elt ind [2, 0, 1] = 5 * 3
         \<and> map_option l_individual
               (forward_locals example_layer example_x example_components) = Some ind)"
proof -
  have v: "valid_index [] []" by (simp add: valid_index_def)
  from C2_individual_weighting[OF example_layer_ok, of example_components "[]"]
  obtain cpi ind where
    "components_per_input example_components = Some cpi"
    "shape cpi = [1, 2, 2]"
    "\<forall>bs i m. valid_index [] bs \<longrightarrow>
               elt cpi (bs @ [0, i, m]) = elt example_components (bs @ [m, i])"
    "individual_sensetivity_weighted example_layer example_components = Some ind"
    "shape ind = [3, 2, 2]"
    "\<forall>bs oo i m. valid_index [] bs \<longrightarrow> oo < 3 \<longrightarrow> i < 2 \<longrightarrow> m < 2 \<longrightarrow>
               elt ind (bs @ [oo, i, m])
                 = elt (individual_sensetivity example_layer) [oo, i, 0]
                   * elt example_components (bs @ [m, i])"
    "\<forall>x l. forward_locals example_layer x example_components = Some l
        \<longrightarrow> l_individual l = ind"
    by (auto simp: example_components_def example_layer_def iota_def)
  moreover from this(3) v have "elt cpi [0, 0, 1] = elt example_components [1, 0]"
    by fastforce
  moreover from calculation(6) v have "elt ind [2, 0, 1] = 5 * 3"
    by (fastforce simp: example_layer_def example_components_def iota_def)
  moreover have "map_option l_individual
       (forward_locals example_layer example_x example_components) = Some ind"
  proof -
    have pos: "0 < prod_list ([]::nat list)" "0 < out_features example_layer"
      by (simp_all add: example_layer_def)
    have b: "in_features example_layer = in_features example_layer
             \<or> in_features example_layer = 1" by simp
    obtain l where l: "forward_locals example_layer example_x example_components = Some l"
      using forward_locals_conformant[OF example_layer_ok example_shapes b pos] by blast
    with calculation(7) show ?thesis by simp
  qed
  ultimately show ?thesis
    using example_layer_ok by (auto simp: example_components_def iota_def)
qed

text \<open>
  C3. In a run of \<open>forward\<close> the cumulative input-side environment is the sum of the
  individual-sensitivity-weighted tensor over the output-neuron axis and has the shape
  \<open>[..., in, modes_in]\<close>; the cumulative output-side environment is the sum of the same
  tensor over the input-neuron axis and has the shape \<open>[..., out, modes_in]\<close>.  Both sums
  are taken from the one product of step 2.
\<close>

theorem C3_cumulative_environments:
  assumes "layer_ok self"
    and "shape x = B @ [in_features self]"
    and "shape components = B @ [theta_modes_in self, in_features self]"
    and "0 < prod_list B"
    and "0 < out_features self"
  shows "\<exists>l. forward_locals self x components = Some l
     \<and> individual_sensetivity_weighted self components = Some (l_individual l)
     \<and> cumulative_env_inputs (l_individual l) = Some (l_cumulative_env_inputs l)
     \<and> cumulative_env_outputs (l_individual l) = Some (l_cumulative_env_outputs l)
     \<and> shape (l_individual l) = B @ [out_features self, in_features self, theta_modes_in self]
     \<and> shape (l_cumulative_env_inputs l) = B @ [in_features self, theta_modes_in self]
     \<and> (\<forall>bs i m. valid_index B bs \<longrightarrow>
           elt (l_cumulative_env_inputs l) (bs @ [i, m])
             = (\<Sum>oo<out_features self. elt (l_individual l) (bs @ [oo, i, m])))
     \<and> shape (l_cumulative_env_outputs l) = B @ [out_features self, theta_modes_in self]
     \<and> (\<forall>bs oo m. valid_index B bs \<longrightarrow>
           elt (l_cumulative_env_outputs l) (bs @ [oo, m])
             = (\<Sum>i<in_features self. elt (l_individual l) (bs @ [oo, i, m])))"
proof -
  have b: "in_features self = in_features self \<or> in_features self = 1" by simp
  obtain l where l: "forward_locals self x components = Some l"
    using forward_locals_conformant[OF assms(1,2,3) b assms(4,5)] by blast
  note v = forward_locals_valuesD[OF assms(1,2,3) b l]
  note s = forward_locals_SomeD[OF l]
  show ?thesis
    apply (rule exI[of _ l])
    apply (intro conjI)
    apply (rule l s(1) s(2) s(7) v(3) v(4) v(13) v(9) v(17))+
    done
qed

theorem C3_witness:
  "layer_ok example_layer
   \<and> shape example_x = [2]
   \<and> shape example_components = [2, 2]
   \<and> 0 < prod_list ([]::nat list)
   \<and> 0 < out_features example_layer
   \<and> (\<exists>l. forward_locals example_layer example_x example_components = Some l
         \<and> shape (l_cumulative_env_inputs l) = [2, 2]
         \<and> elt (l_cumulative_env_inputs l) [0, 1]
             = elt (l_individual l) [0, 0, 1] + elt (l_individual l) [1, 0, 1]
               + elt (l_individual l) [2, 0, 1]
         \<and> elt (l_cumulative_env_inputs l) [0, 1] = 27
         \<and> shape (l_cumulative_env_outputs l) = [3, 2]
         \<and> elt (l_cumulative_env_outputs l) [1, 0]
             = elt (l_individual l) [1, 0, 0] + elt (l_individual l) [1, 1, 0]
         \<and> elt (l_cumulative_env_outputs l) [1, 0] = 11)"
proof -
  have h: "shape example_x = [] @ [in_features example_layer]"
    "shape example_components = [] @ [theta_modes_in example_layer, in_features example_layer]"
    "0 < prod_list ([]::nat list)" "0 < out_features example_layer"
    by (simp_all add: example_x_def example_components_def example_layer_def iota_def)
  from C3_cumulative_environments[OF example_layer_ok h]
  obtain l where l: "forward_locals example_layer example_x example_components = Some l"
    and 1: "shape (l_cumulative_env_inputs l) = [2, 2]"
    and 2: "\<forall>bs i m. valid_index [] bs \<longrightarrow>
           elt (l_cumulative_env_inputs l) (bs @ [i, m])
             = (\<Sum>oo<out_features example_layer. elt (l_individual l) (bs @ [oo, i, m]))"
    and 3: "shape (l_cumulative_env_outputs l) = [3, 2]"
    and 4: "\<forall>bs oo m. valid_index [] bs \<longrightarrow>
           elt (l_cumulative_env_outputs l) (bs @ [oo, m])
             = (\<Sum>i<in_features example_layer. elt (l_individual l) (bs @ [oo, i, m]))"
    by (auto simp: example_layer_def)
  have 5: "elt (l_cumulative_env_inputs l) [0, 1]
             = elt (l_individual l) [0, 0, 1] + elt (l_individual l) [1, 0, 1]
               + elt (l_individual l) [2, 0, 1]"
    using 2[rule_format, OF valid_Nil, of 0 1]
    by (simp add: example_layer_def lessThan_nat_numeral lessThan_Suc)
  have 6: "elt (l_cumulative_env_outputs l) [1, 0]
             = elt (l_individual l) [1, 0, 0] + elt (l_individual l) [1, 1, 0]"
    using 4[rule_format, OF valid_Nil, of 1 0]
    by (simp add: example_layer_def lessThan_nat_numeral lessThan_Suc)
  have 7: "elt (l_cumulative_env_inputs l) [0, 1] = 27"
    "elt (l_cumulative_env_outputs l) [1, 0] = 11"
    using example_run_shared l by auto
  show ?thesis
    apply (intro conjI)
    subgoal by (rule example_layer_ok)
    subgoal by (simp add: example_x_def iota_def)
    subgoal by (simp add: example_components_def iota_def)
    subgoal by simp
    subgoal by (simp add: example_layer_def)
    subgoal
      apply (rule exI[of _ l])
      using l 1 3 5 6 7 by simp
    done
qed

text \<open>
  C4. In a run of \<open>forward\<close>, \<open>perceptual_x\<close> is \<open>x\<close>, expanded on a trailing singleton axis,
  multiplied with broadcasting by the normalised environment of step 4, contracted against
  \<open>perception\<close> (shape \<open>[in, modes_in, 1]\<close>) by a weighted sum over the modes for each input
  neuron, squeezed, plus \<open>perceptual_bias\<close>, of shape \<open>[..., in_features]\<close>; and
  \<open>transformed_x\<close>, the first element of the result, is the affine map of the base class
  (\<open>weight\<close> of shape \<open>[out, in]\<close>, \<open>bias\<close> of shape \<open>[out]\<close>) applied to \<open>perceptual_x\<close>, of
  shape \<open>[..., out_features]\<close>.
\<close>

theorem C4_perceptual_and_linear:
  assumes "layer_ok self"
    and "shape x = B @ [in_features self]"
    and "shape components = B @ [theta_modes_in self, in_features self]"
    and "0 < prod_list B"
    and "0 < out_features self"
  shows "\<exists>l. forward_locals self x components = Some l
     \<and> forward self x components = Some (l_transformed_x l, l_param_quads l)
     \<and> perceptual_x self x (l_env_normalized l) = Some (l_perceptual_x l)
     \<and> shape (l_perceptual_x l) = B @ [in_features self]
     \<and> (\<forall>bs i. valid_index B bs \<longrightarrow> i < in_features self \<longrightarrow>
           elt (l_perceptual_x l) (bs @ [i])
             = (\<Sum>m<theta_modes_in self. elt x (bs @ [i]) * elt (l_env_normalized l) (bs @ [i, m])
                           * elt (perception self) [i, m, 0])
               + elt (perceptual_bias self) [i])
     \<and> linear (l_perceptual_x l) (weight self) (bias self) = Some (l_transformed_x l)
     \<and> shape (l_transformed_x l) = B @ [out_features self]
     \<and> (\<forall>bs oo. valid_index B bs \<longrightarrow>
           elt (l_transformed_x l) (bs @ [oo])
             = (\<Sum>i<in_features self. elt (l_perceptual_x l) (bs @ [i]) * elt (weight self) [oo, i])
               + (case bias self of None \<Rightarrow> 0 | Some bt \<Rightarrow> elt bt [oo]))"
proof -
  have b: "in_features self = in_features self \<or> in_features self = 1" by simp
  obtain l where l: "forward_locals self x components = Some l"
    and f: "forward self x components = Some (l_transformed_x l, l_param_quads l)"
    using forward_conformant[OF assms(1,2,3) b assms(4,5)] by blast
  note v = forward_locals_valuesD[OF assms(1,2,3) b l]
  note s = forward_locals_SomeD[OF l]
  show ?thesis
    apply (rule exI[of _ l])
    apply (intro conjI)
    apply (rule l f s(5) s(6) v(7) v(15) v(8) v(16))+
    done
qed

theorem C4_witness:
  "layer_ok example_layer
   \<and> shape example_x = [2]
   \<and> shape example_components = [2, 2]
   \<and> 0 < prod_list ([]::nat list)
   \<and> 0 < out_features example_layer
   \<and> (\<exists>l. forward_locals example_layer example_x example_components = Some l
         \<and> forward example_layer example_x example_components
             = Some (l_transformed_x l, l_param_quads l)
         \<and> shape (l_perceptual_x l) = [2]
         \<and> elt (l_perceptual_x l) [1]
             = 2 * elt (l_env_normalized l) [1, 0] * 1 + 2 * elt (l_env_normalized l) [1, 1] * 1
               + 0
         \<and> elt (l_perceptual_x l) [1] = 292
         \<and> shape (l_transformed_x l) = [3]
         \<and> elt (l_transformed_x l) [0]
             = elt (l_perceptual_x l) [0] * 1 + elt (l_perceptual_x l) [1] * 2 + 1
         \<and> elt (l_transformed_x l) [0] = 659)"
proof -
  have h: "shape example_x = [] @ [in_features example_layer]"
    "shape example_components = [] @ [theta_modes_in example_layer, in_features example_layer]"
    "0 < prod_list ([]::nat list)" "0 < out_features example_layer"
    by (simp_all add: example_x_def example_components_def example_layer_def iota_def)
  from C4_perceptual_and_linear[OF example_layer_ok h]
  obtain l where l: "forward_locals example_layer example_x example_components = Some l"
    and f: "forward example_layer example_x example_components
             = Some (l_transformed_x l, l_param_quads l)"
    and 1: "shape (l_perceptual_x l) = [2]"
    and 2: "\<forall>bs i. valid_index [] bs \<longrightarrow> i < in_features example_layer \<longrightarrow>
           elt (l_perceptual_x l) (bs @ [i])
             = (\<Sum>m<theta_modes_in example_layer.
                   elt example_x (bs @ [i]) * elt (l_env_normalized l) (bs @ [i, m])
                           * elt (perception example_layer) [i, m, 0])
               + elt (perceptual_bias example_layer) [i]"
    and 3: "shape (l_transformed_x l) = [3]"
    and 4: "\<forall>bs oo. valid_index [] bs \<longrightarrow>
           elt (l_transformed_x l) (bs @ [oo])
             = (\<Sum>i<in_features example_layer.
                   elt (l_perceptual_x l) (bs @ [i]) * elt (weight example_layer) [oo, i])
               + (case bias example_layer of None \<Rightarrow> 0 | Some bt \<Rightarrow> elt bt [oo])"
    by (auto simp: example_layer_def)
  have 5: "elt (l_perceptual_x l) [1]
             = 2 * elt (l_env_normalized l) [1, 0] * 1 + 2 * elt (l_env_normalized l) [1, 1] * 1
               + 0"
    using 2[rule_format, OF valid_Nil, of 1]
    by (simp add: example_layer_def example_x_def iota_def const_def lessThan_nat_numeral
        lessThan_Suc)
  have 6: "elt (l_transformed_x l) [0]
             = elt (l_perceptual_x l) [0] * 1 + elt (l_perceptual_x l) [1] * 2 + 1"
    using 4[rule_format, OF valid_Nil, of 0]
    by (simp add: example_layer_def iota_def const_def lessThan_nat_numeral lessThan_Suc)
  have 7: "elt (l_perceptual_x l) [1] = 292" "elt (l_transformed_x l) [0] = 659"
    using example_run_shared l by auto
  show ?thesis
    apply (intro conjI)
    subgoal by (rule example_layer_ok)
    subgoal by (simp add: example_x_def iota_def)
    subgoal by (simp add: example_components_def iota_def)
    subgoal by simp
    subgoal by (simp add: example_layer_def)
    subgoal
      apply (rule exI[of _ l])
      using l f 1 3 5 6 7 by simp
    done
qed




text \<open>
  C6. If both normalisation flags are off, the normalisation operations of steps 4 and 8
  are the identity.  In every run of \<open>forward\<close> the normalised environment is the biased
  environment and the tensor after the output-side normalisation is the gated tensor;
  \<open>forward\<close> computes what the pipeline without the two normalisation steps computes; and
  for conformant inputs the run returns and the tensor after the output-side normalisation
  is, entry by entry, the cumulative output-side environment times \<open>transformed_x\<close>.
\<close>

theorem C6_norm_flags_off_identity:
  assumes "layer_ok self"
    and "\<not> theta_normalize_env_input self"
    and "\<not> theta_normalize_env_output self"
  shows "forward self x components = forward_without_norm self x components
     \<and> (\<forall>l. forward_locals self x components = Some l \<longrightarrow>
            l_env_normalized l = l_env_biased l
          \<and> l_modulated_env l = l_gated_env l
          \<and> gated_env (l_cumulative_env_outputs l) (l_transformed_x l)
              = Some (l_modulated_env l))
     \<and> (shape x = B @ [in_features self]
          \<and> shape components = B @ [theta_modes_in self, in_features self]
          \<and> 0 < prod_list B \<and> 0 < out_features self \<longrightarrow>
          (\<exists>l. forward_locals self x components = Some l
             \<and> l_env_normalized l = l_env_biased l
             \<and> shape (l_modulated_env l) = B @ [out_features self, theta_modes_in self]
             \<and> (\<forall>bs oo m. valid_index B bs \<longrightarrow> oo < out_features self
                   \<longrightarrow> m < theta_modes_in self \<longrightarrow>
                   elt (l_modulated_env l) (bs @ [oo, m])
                     = elt (l_cumulative_env_outputs l) (bs @ [oo, m])
                       * elt (l_transformed_x l) (bs @ [oo]))))"
proof -
  have i: "norm_env_input self = Identity" and o: "norm_env_output self = Identity"
    using assms by (auto simp: layer_ok_def intro: norm_ok_False)
  have 1: "forward self x components = forward_without_norm self x components"
    unfolding forward_def forward_locals_def forward_without_norm_def
    by (simp add: i o split: Option.bind_split)
  have 2: "l_env_normalized l = l_env_biased l \<and> l_modulated_env l = l_gated_env l
          \<and> gated_env (l_cumulative_env_outputs l) (l_transformed_x l)
              = Some (l_modulated_env l)"
    if l: "forward_locals self x components = Some l" for l
    using forward_locals_SomeD(4,8,9)[OF l] by (simp add: i o)
  have 3: "\<exists>l. forward_locals self x components = Some l
             \<and> l_env_normalized l = l_env_biased l
             \<and> shape (l_modulated_env l) = B @ [out_features self, theta_modes_in self]
             \<and> (\<forall>bs oo m. valid_index B bs \<longrightarrow> oo < out_features self
                   \<longrightarrow> m < theta_modes_in self \<longrightarrow>
                   elt (l_modulated_env l) (bs @ [oo, m])
                     = elt (l_cumulative_env_outputs l) (bs @ [oo, m])
                       * elt (l_transformed_x l) (bs @ [oo]))"
    if x: "shape x = B @ [in_features self]"
      and c: "shape components = B @ [theta_modes_in self, in_features self]"
      and pos: "0 < prod_list B" "0 < out_features self"
  proof -
    have b: "in_features self = in_features self \<or> in_features self = 1" by simp
    obtain l where l: "forward_locals self x components = Some l"
      using forward_locals_conformant[OF assms(1) x c b pos] by blast
    note v = forward_locals_values[OF assms(1) x c b l]
    have g: "\<forall>bs oo m. valid_index B bs \<longrightarrow> oo < out_features self
                   \<longrightarrow> m < theta_modes_in self \<longrightarrow>
                   elt (l_gated_env l) (bs @ [oo, m])
                     = elt (l_cumulative_env_outputs l) (bs @ [oo, m])
                       * elt (l_transformed_x l) (bs @ [oo])"
      using v by blast
    have s: "shape (l_modulated_env l) = B @ [out_features self, theta_modes_in self]"
      using v by blast
    show ?thesis
      apply (rule exI[of _ l])
      using l 2[OF l] g s by simp
  qed
  show ?thesis
    apply (intro conjI allI impI)
    subgoal by (rule 1)
    subgoal for l using 2[of l] by simp
    subgoal for l using 2[of l] by simp
    subgoal for l using 2[of l] by simp
    subgoal using 3 by blast
    done
qed

theorem C6_witness:
  "layer_ok example_layer
   \<and> \<not> theta_normalize_env_input example_layer
   \<and> \<not> theta_normalize_env_output example_layer
   \<and> shape example_x = [2]
   \<and> shape example_components = [2, 2]
   \<and> 0 < prod_list ([]::nat list)
   \<and> 0 < out_features example_layer
   \<and> forward example_layer example_x example_components
       = forward_without_norm example_layer example_x example_components
   \<and> (\<exists>l. forward_locals example_layer example_x example_components = Some l
         \<and> l_env_normalized l = l_env_biased l
         \<and> l_modulated_env l = l_gated_env l
         \<and> shape (l_modulated_env l) = [3, 2]
         \<and> elt (l_modulated_env l) [1, 0]
             = elt (l_cumulative_env_outputs l) [1, 0] * elt (l_transformed_x l) [1])"
proof -
  have f: "\<not> theta_normalize_env_input example_layer"
      "\<not> theta_normalize_env_output example_layer"
    by (simp_all add: example_layer_def)
  have h: "shape example_x = [] @ [in_features example_layer]
          \<and> shape example_components
              = [] @ [theta_modes_in example_layer, in_features example_layer]
          \<and> 0 < prod_list ([]::nat list) \<and> 0 < out_features example_layer"
    by (simp add: example_x_def example_components_def example_layer_def iota_def)
  note t = C6_norm_flags_off_identity[OF example_layer_ok f, of example_x example_components "[]"]
  from t h obtain l where l: "forward_locals example_layer example_x example_components = Some l"
    and 1: "l_env_normalized l = l_env_biased l"
    and 2: "shape (l_modulated_env l) = [3, 2]"
    and 3: "\<forall>bs oo m. valid_index [] bs \<longrightarrow> oo < out_features example_layer
                   \<longrightarrow> m < theta_modes_in example_layer \<longrightarrow>
                   elt (l_modulated_env l) (bs @ [oo, m])
                     = elt (l_cumulative_env_outputs l) (bs @ [oo, m])
                       * elt (l_transformed_x l) (bs @ [oo])"
    by (auto simp: example_layer_def)
  from t l have 4: "l_modulated_env l = l_gated_env l" by blast
  have v: "valid_index [] []" by (simp add: valid_index_def)
  have 5: "elt (l_modulated_env l) [1, 0]
             = elt (l_cumulative_env_outputs l) [1, 0] * elt (l_transformed_x l) [1]"
    using 3[rule_format, OF v, of 1 0] by (simp add: example_layer_def)
  show ?thesis
    using example_layer_ok f h t l 1 2 4 5 by (auto simp: example_layer_def)
qed




text \<open>
  C9. A call of \<open>forward\<close> changes no state of the layer: running the body statement by
  statement on the layer object leaves the object with every learnable parameter
  (\<open>individual_sensetivity\<close>, \<open>env_sensetivity\<close>, \<open>env_bias\<close>, \<open>perception\<close>, \<open>perceptual_bias\<close>,
  \<open>emission\<close>, \<open>emission_scale\<close>, \<open>emission_bias\<close>, \<open>weight\<close>, \<open>bias\<close>) and every configuration
  field as it was before the call, whether the call returns or raises; what the call
  returns is the value of \<open>forward\<close>.
\<close>

theorem C9_forward_keeps_layer:
  "snd (forward_call self x components) = self
   \<and> fst (forward_call self x components) = forward self x components"
  by (simp add: forward_call_def forward_body_forward)

text \<open>
  C10. \<open>transformed_x\<close> does not depend on the emission parameters: two runs of \<open>forward\<close>
  on the same inputs, on layers that differ in the values of \<open>emission\<close>, \<open>emission_scale\<close>
  and \<open>emission_bias\<close> only, both return or both raise, and when they return their first
  elements \<open>transformed_x\<close> are the same tensor.
\<close>

theorem C10_transformed_x_independent_of_emission:
  assumes "shape e = shape (emission self)"
    and "shape s = shape (emission_scale self)"
    and "shape b = shape (emission_bias self)"
  shows "map_option fst (forward (with_emission self e s b) x components)
           = map_option fst (forward self x components)"
proof -
  let ?S = "with_emission self e s b"
  have n: "(param_quads ?S m = None) = (param_quads self m = None)" for m
    by (rule param_quads_None_cong) (simp_all add: with_emission_def assms)
  show ?thesis
  proof (cases "forward_locals self x components")
    case None
    then have "forward_locals ?S x components = None"
      unfolding forward_locals_def with_emission_stages
      by (auto split: Option.bind_splits) (metis n option.distinct(1))
    with None show ?thesis by (simp add: forward_def)
  next
    case (Some l)
    note d = forward_locals_SomeD[OF Some]
    obtain pq where pq: "param_quads ?S (l_modulated_env l) = Some pq"
      using n[of "l_modulated_env l"] d(10) by (cases "param_quads ?S (l_modulated_env l)") auto
    have "forward_locals ?S x components = Some (l\<lparr>l_param_quads := pq\<rparr>)"
      unfolding forward_locals_def with_emission_stages
      using d(1-9) pq by simp
    with Some show ?thesis by (simp add: forward_def)
  qed
qed

theorem C10_witness:
  "shape (zeros [1, 2, 4]) = shape (emission example_layer)
   \<and> shape (const [3, 4] 2) = shape (emission_scale example_layer)
   \<and> shape (const [3, 4] 5) = shape (emission_bias example_layer)
   \<and> map_option fst (forward (with_emission example_layer (zeros [1, 2, 4]) (const [3, 4] 2)
                                 (const [3, 4] 5)) example_x example_components)
       = map_option fst (forward example_layer example_x example_components)
   \<and> (\<exists>transformed_x.
         map_option fst (forward (with_emission example_layer (zeros [1, 2, 4]) (const [3, 4] 2)
                                 (const [3, 4] 5)) example_x example_components)
           = Some transformed_x
         \<and> elt transformed_x [0] = 659)"
proof -
  have h: "shape (zeros [1, 2, 4]) = shape (emission example_layer)"
    "shape (const [3, 4] 2) = shape (emission_scale example_layer)"
    "shape (const [3, 4] 5) = shape (emission_bias example_layer)"
    by (simp_all add: example_layer_def zeros_def const_def iota_def ones_def)
  note t = C10_transformed_x_independent_of_emission[OF h, of example_x example_components]
  obtain l where l: "forward_locals example_layer example_x example_components = Some l"
    and v: "elt (l_transformed_x l) [0] = 659"
    using example_run_shared by blast
  have r: "map_option fst (forward example_layer example_x example_components)
          = Some (l_transformed_x l)"
    by (simp add: forward_def l)
  show ?thesis
    apply (intro conjI)
    subgoal by (rule h(1))
    subgoal by (rule h(2))
    subgoal by (rule h(3))
    subgoal by (rule t)
    subgoal
      apply (rule exI[of _ "l_transformed_x l"])
      apply (rule conjI)
       apply (rule trans[OF t r])
      apply (rule v)
      done
    done
qed

end
